theory Spec2Isabelle
  imports Main "HOL-Library.Word"
begin

section \<open>Data model (entry.go)\<close>

text \<open>
  Go's \<^verbatim>\<open>int\<close> is a 64-bit two's complement integer on the platforms the tool is built
  for: \<open>Count\<close> and the threshold are \<open>64 word\<close>, \<open>++\<close> wraps, and \<^verbatim>\<open>>=\<close> and
  \<^verbatim>\<open>>\<close> are the signed comparisons \<open>word_sle\<close> and \<open>word_sless\<close>.
  Go strings are byte strings, as \<open>string\<close> is.

  \<^verbatim>\<open>entry.go\<close> declares the five geolocation fields directly in \<^verbatim>\<open>authEntry\<close>, while
  \<^verbatim>\<open>applyEntryFilters\<close> reads and writes them as one value, \<^verbatim>\<open>ae.Location\<close>. The
  record below groups them the way \<^verbatim>\<open>applyEntryFilters\<close> uses them.

  A \<^verbatim>\<open>float64\<close> is its IEEE 754 bit pattern: the program stores and formats the two
  coordinates and never computes with them. The zero value is the pattern 0 (that is
  \<^verbatim>\<open>+0.0\<close>); \<^verbatim>\<open>-0.0\<close>, the infinities and the NaNs are patterns of their own.
\<close>

type_synonym float64 = "64 word"

record location =
  Country :: string
  Region :: string
  City :: string
  Lat :: float64
  Long :: float64

definition zeroLocation :: location where
  "zeroLocation = \<lparr>Country = [], Region = [], City = [], Lat = 0, Long = 0\<rparr>"

record authEntry =
  IP :: string
  Location :: location
  Count :: "64 word"
  Users :: "string list"

record datedAuthEntries =
  Date :: string
  Entries :: "authEntry list"

type_synonym allEntries = "datedAuthEntries list"

subsection \<open>addUser\<close>

text \<open>
  The loop \<^verbatim>\<open>for _, un := range ae.Users { if un == user { return } }\<close>: the same
  scan decides the username filter of \<^verbatim>\<open>applyEntryFilters\<close>.
\<close>

primrec hasUser :: "string \<Rightarrow> string list \<Rightarrow> bool" where
  "hasUser user [] = False"
| "hasUser user (un # rest) = (if un = user then True else hasUser user rest)"

definition addUser :: "authEntry \<Rightarrow> string \<Rightarrow> authEntry" where
  "addUser ae user =
     (let ae1 = ae\<lparr>Count := Count ae + 1\<rparr>
      in if hasUser user (Users ae1) then ae1
         else ae1\<lparr>Users := Users ae1 @ [user]\<rparr>)"

subsection \<open>exists\<close>

text \<open>
  \<^verbatim>\<open>for idx, ae := range dae.Entries\<close>: the index of the first entry with the IP and
  \<open>True\<close>, or \<open>(0, False)\<close>.
\<close>

primrec existsFrom :: "nat \<Rightarrow> authEntry list \<Rightarrow> string \<Rightarrow> nat \<times> bool" where
  "existsFrom idx [] ip = (0, False)"
| "existsFrom idx (ae # rest) ip =
     (if IP ae = ip then (idx, True) else existsFrom (Suc idx) rest ip)"

definition exists :: "datedAuthEntries \<Rightarrow> string \<Rightarrow> nat \<times> bool" where
  "exists dae ip = existsFrom 0 (Entries dae) ip"

section \<open>The line parser\<close>

text \<open>
  Modelled from the spec: the Line Parser (\<^verbatim>\<open>parseSSHAttempts\<close> and the pattern it
  matches a line with) is not among the sources. Section 4.1: a recognised line gives
  a date, a source IP and a username (the parameter \<open>recognise\<close>; \<open>None\<close> for any
  other line, which is ignored). The bucket of the date is located, or created at the
  end of the store; within it the entry of the IP is searched linearly, first match
  wins (\<^verbatim>\<open>exists\<close>); a found entry gets \<^verbatim>\<open>addUser\<close>, otherwise a new entry with
  \<open>Count = 1\<close> and \<open>Users = [username]\<close> is appended to the bucket. The store is built
  in a single pass over the lines, starting empty.
\<close>

definition newEntry :: "string \<Rightarrow> string \<Rightarrow> authEntry" where
  "newEntry ip name = \<lparr>IP = ip, Location = zeroLocation, Count = 1, Users = [name]\<rparr>"

definition recordInBucket :: "datedAuthEntries \<Rightarrow> string \<Rightarrow> string \<Rightarrow> datedAuthEntries" where
  "recordInBucket dae ip name =
     (case exists dae ip of
        (idx, True) \<Rightarrow> dae\<lparr>Entries := (Entries dae)[idx := addUser (Entries dae ! idx) name]\<rparr>
      | (idx, False) \<Rightarrow> dae\<lparr>Entries := Entries dae @ [newEntry ip name]\<rparr>)"

primrec recordAttempt :: "allEntries \<Rightarrow> string \<Rightarrow> string \<Rightarrow> string \<Rightarrow> allEntries" where
  "recordAttempt [] d ip name = [\<lparr>Date = d, Entries = [newEntry ip name]\<rparr>]"
| "recordAttempt (dae # rest) d ip name =
     (if Date dae = d then recordInBucket dae ip name # rest
      else dae # recordAttempt rest d ip name)"

definition parseLine ::
  "(string \<Rightarrow> (string \<times> string \<times> string) option) \<Rightarrow> allEntries \<Rightarrow> string \<Rightarrow> allEntries" where
  "parseLine recognise store line =
     (case recognise line of
        None \<Rightarrow> store
      | Some (d, ip, name) \<Rightarrow> recordAttempt store d ip name)"

definition parseSSHAttempts ::
  "(string \<Rightarrow> (string \<times> string \<times> string) option) \<Rightarrow> string list \<Rightarrow> allEntries" where
  "parseSSHAttempts recognise lines = foldl (parseLine recognise) [] lines"

section \<open>The renderer (entry.go)\<close>

text \<open>
  Standard output is a list of tokens, one per call of \<^verbatim>\<open>fmt\<close> or \<^verbatim>\<open>color\<close>.
  \<^verbatim>\<open>fmt.Printf("IP: %s\n", ae.IP)\<close> writes the same bytes as a \<open>Println\<close> of the
  joined string; \<^verbatim>\<open>fmt.Println(ae.Count)\<close> is kept as the number it prints, and the
  JSON document as the store it serialises. The \<^verbatim>\<open>%f\<close> verb of \<^verbatim>\<open>fmt.Sprintf\<close>
  is the parameter \<open>fmtF\<close>.
\<close>

datatype attribute = FgGreen | FgBlue | FgYellow | Bold

datatype token =
    ColorSet "attribute list"
  | ColorUnset
  | Print string
  | Println string
  | PrintlnInt "64 word"
  | PrintlnJSON allEntries

definition composeLocationString :: "(float64 \<Rightarrow> string) \<Rightarrow> location \<Rightarrow> string" where
  "composeLocationString fmtF l =
     City l @ '', '' @ Region l @ '', '' @ Country l @
     '' ('' @ fmtF (Lat l) @ '', '' @ fmtF (Long l) @ '')''"

fun strings_Join :: "string list \<Rightarrow> string \<Rightarrow> string" where
  "strings_Join [] sep = []"
| "strings_Join [s] sep = s"
| "strings_Join (s # t # rest) sep = s @ sep @ strings_Join (t # rest) sep"

definition printEntry :: "(float64 \<Rightarrow> string) \<Rightarrow> authEntry \<Rightarrow> token list" where
  "printEntry fmtF ae =
     [ColorSet [FgBlue, Bold], Println (''IP: '' @ IP ae), ColorUnset,
      ColorSet [FgYellow], Print ''Location: '', ColorUnset,
      Println (composeLocationString fmtF (Location ae)),
      ColorSet [FgYellow], Print ''Attempts: '', ColorUnset,
      PrintlnInt (Count ae),
      ColorSet [FgYellow], Print ''Usernames: '', ColorUnset,
      Println (strings_Join (Users ae) '', '')]"

text \<open>The inner loop of \<^verbatim>\<open>print\<close>, with the global \<^verbatim>\<open>threshold\<close> as a parameter.\<close>

primrec printEntries :: "64 word \<Rightarrow> (float64 \<Rightarrow> string) \<Rightarrow> authEntry list \<Rightarrow> token list" where
  "printEntries thr fmtF [] = []"
| "printEntries thr fmtF (ae # rest) =
     (if word_sle thr (Count ae) then printEntry fmtF ae else []) @ printEntries thr fmtF rest"

primrec print :: "64 word \<Rightarrow> (float64 \<Rightarrow> string) \<Rightarrow> allEntries \<Rightarrow> token list" where
  "print thr fmtF [] = []"
| "print thr fmtF (dae # rest) =
     [ColorSet [FgGreen, Bold], Println (''Date: '' @ Date dae), ColorUnset] @
     printEntries thr fmtF (Entries dae) @ [Println []] @ print thr fmtF rest"

text \<open>\<^verbatim>\<open>main\<close> calls this method under the name \<^verbatim>\<open>printJSON\<close>.\<close>

definition jsonPrint :: "allEntries \<Rightarrow> token list" where
  "jsonPrint ae = [PrintlnJSON ae]"

section \<open>Flags, collaborators and effects (main.go)\<close>

text \<open>
  The flag variables that the filters and the renderer read. \<^verbatim>\<open>locale\<close> is spelt
  \<open>locale_flag\<close>. \<^verbatim>\<open>debugOn\<close> and \<^verbatim>\<open>filename\<close> are left out with what they control:
  the debug log lines, the spinner and the opening of the file.
\<close>

record config =
  jsonOut :: bool
  threshold :: "64 word"
  address :: string
  user :: string
  locale_flag :: string
  date :: string

text \<open>
  What the program calls outside itself: the answer of the geolocation service to a
  request for an IP (an error text or a location; \<open>'n\<close> is the state of the network,
  so two requests for one IP may differ), \<^verbatim>\<open>regexp.Compile\<close> (\<open>None\<close> for a pattern
  that does not compile, else the pattern's \<^verbatim>\<open>MatchString\<close>) and the \<^verbatim>\<open>%f\<close> verb.
\<close>

record 'n env =
  ipapi :: "'n \<Rightarrow> string \<Rightarrow> (string + location) \<times> 'n"
  regexpCompile :: "string \<Rightarrow> (string \<Rightarrow> bool) option"
  formatFloat :: "float64 \<Rightarrow> string"

text \<open>
  The observable effects, in order: a request to the geolocation service, the log line
  \<^verbatim>\<open>error getting location data for IP '%s': %s\<close>, a call of \<^verbatim>\<open>regexp.MustCompile\<close>,
  the log line \<^verbatim>\<open>found no date matching supplied filter; exiting\<close>, and a token
  written to standard output.
\<close>

datatype event =
    Request string
  | LogLocateError string string
  | Compile string
  | LogNoDateMatch
  | Stdout token

record 'n world =
  net :: 'n
  trace :: "event list"

text \<open>
  A computation either returns or panics (\<^verbatim>\<open>regexp.MustCompile\<close> on a pattern that
  does not compile; nothing recovers), and changes the world either way.
\<close>

datatype panic = RegexpPanic string

type_synonym ('n, 'a) prog = "'n world \<Rightarrow> (panic + 'a) \<times> 'n world"

definition ret :: "'a \<Rightarrow> ('n, 'a) prog" where
  "ret x w = (Inr x, w)"

definition raise :: "panic \<Rightarrow> ('n, 'a) prog" where
  "raise p w = (Inl p, w)"

definition bnd :: "('n, 'a) prog \<Rightarrow> ('a \<Rightarrow> ('n, 'b) prog) \<Rightarrow> ('n, 'b) prog" where
  "bnd m f w = (case m w of (Inl p, w') \<Rightarrow> (Inl p, w') | (Inr x, w') \<Rightarrow> f x w')"

definition emits :: "event list \<Rightarrow> ('n, unit) prog" where
  "emits es w = (Inr (), w\<lparr>trace := trace w @ es\<rparr>)"

subsection \<open>The helpers filter and apply of datedAuthEntries\<close>

text \<open>
  Modelled from the spec: the methods \<^verbatim>\<open>filter\<close> and \<^verbatim>\<open>apply\<close> of
  \<^verbatim>\<open>datedAuthEntries\<close> are called by \<^verbatim>\<open>applyEntryFilters\<close> and are not among the
  sources. Section 4.2: \<^verbatim>\<open>filter(predicate)\<close> returns the subsequence of a bucket's
  entries satisfying the predicate, preserving order, and does not mutate the bucket;
  \<^verbatim>\<open>transform(fn)\<close> returns a same-length, same-order sequence where each entry has
  been replaced by \<^verbatim>\<open>fn(entry)\<close>. The function argument is called once per entry,
  from left to right; a panic in it ends the traversal.
\<close>

primrec filterEntries ::
  "(authEntry \<Rightarrow> ('n, bool) prog) \<Rightarrow> authEntry list \<Rightarrow> ('n, authEntry list) prog" where
  "filterEntries f [] = ret []"
| "filterEntries f (ae # rest) =
     bnd (f ae) (\<lambda>keep.
     bnd (filterEntries f rest) (\<lambda>kept.
     ret (if keep then ae # kept else kept)))"

definition filter_dae ::
  "datedAuthEntries \<Rightarrow> (authEntry \<Rightarrow> ('n, bool) prog) \<Rightarrow> ('n, authEntry list) prog" where
  "filter_dae dae f = filterEntries f (Entries dae)"

primrec applyEntries ::
  "(authEntry \<Rightarrow> ('n, authEntry) prog) \<Rightarrow> authEntry list \<Rightarrow> ('n, authEntry list) prog" where
  "applyEntries f [] = ret []"
| "applyEntries f (ae # rest) =
     bnd (f ae) (\<lambda>ae'.
     bnd (applyEntries f rest) (\<lambda>rest'.
     ret (ae' # rest')))"

definition apply_dae ::
  "datedAuthEntries \<Rightarrow> (authEntry \<Rightarrow> ('n, authEntry) prog) \<Rightarrow> ('n, authEntry list) prog" where
  "apply_dae dae f = applyEntries f (Entries dae)"

subsection \<open>The geolocation client\<close>

text \<open>
  Modelled from the spec: the client (\<^verbatim>\<open>newIPAPIClient\<close>, \<^verbatim>\<open>locateIP\<close>) is not among
  the sources. Section 4.3: \<^verbatim>\<open>locate(ip) -> (Location, error)\<close> performs a single
  request; it returns the location of a successful response, and an error with the
  zero-value Location otherwise. The second component is \<open>None\<close> for a nil error.
\<close>

definition locateIP :: "'n env \<Rightarrow> string \<Rightarrow> ('n, location \<times> string option) prog" where
  "locateIP env ip w =
     (case ipapi env (net w) ip of
        (Inl err, n') \<Rightarrow>
          (Inr (zeroLocation, Some err), w\<lparr>net := n', trace := trace w @ [Request ip]\<rparr>)
      | (Inr loc, n') \<Rightarrow>
          (Inr (loc, None), w\<lparr>net := n', trace := trace w @ [Request ip]\<rparr>))"

subsection \<open>applyDateFilter\<close>

text \<open>\<open>None\<close> is the nil slice; \<open>Some [day]\<close> the fresh one-element slice.\<close>

primrec applyDateFilter :: "config \<Rightarrow> allEntries \<Rightarrow> allEntries option" where
  "applyDateFilter cfg [] = None"
| "applyDateFilter cfg (day # rest) =
     (if Date day = date cfg then Some [day] else applyDateFilter cfg rest)"

subsection \<open>applyEntryFilters\<close>

text \<open>The function literals handed to \<^verbatim>\<open>filter\<close> and \<^verbatim>\<open>apply\<close>, in source order.\<close>

definition countPred :: "config \<Rightarrow> authEntry \<Rightarrow> ('n, bool) prog" where
  "countPred cfg ae = ret (word_sle (threshold cfg) (Count ae))"

definition addressPred :: "config \<Rightarrow> authEntry \<Rightarrow> ('n, bool) prog" where
  "addressPred cfg ae = ret (IP ae = address cfg)"

definition userPred :: "config \<Rightarrow> authEntry \<Rightarrow> ('n, bool) prog" where
  "userPred cfg ae = ret (hasUser (user cfg) (Users ae))"

definition locateEntry :: "'n env \<Rightarrow> authEntry \<Rightarrow> ('n, authEntry) prog" where
  "locateEntry env ae =
     bnd (locateIP env (IP ae)) (\<lambda>(location, err).
     bnd (case err of
            Some e \<Rightarrow> emits [LogLocateError (IP ae) e]
          | None \<Rightarrow> ret ()) (\<lambda>_.
     ret (ae\<lparr>Location := location\<rparr>)))"

definition localePred :: "'n env \<Rightarrow> config \<Rightarrow> authEntry \<Rightarrow> ('n, bool) prog" where
  "localePred env cfg ae =
     bnd (emits [Compile (locale_flag cfg)]) (\<lambda>_.
     case regexpCompile env (locale_flag cfg) of
       None \<Rightarrow> raise (RegexpPanic (locale_flag cfg))
     | Some rx \<Rightarrow> ret (rx (composeLocationString (formatFloat env) (Location ae))))"

text \<open>
  The five blocks of the loop body, each ending in the assignment to
  \<^verbatim>\<open>dae[idx].Entries\<close>. \<^verbatim>\<open>newIPAPIClient\<close> only builds the client value that
  \<^verbatim>\<open>locateIP\<close> is called on.
\<close>

definition countStage :: "config \<Rightarrow> datedAuthEntries \<Rightarrow> ('n, datedAuthEntries) prog" where
  "countStage cfg dae =
     (if word_sless 0 (threshold cfg)
      then bnd (filter_dae dae (countPred cfg)) (\<lambda>filtered. ret (dae\<lparr>Entries := filtered\<rparr>))
      else ret dae)"

definition addressStage :: "config \<Rightarrow> datedAuthEntries \<Rightarrow> ('n, datedAuthEntries) prog" where
  "addressStage cfg dae =
     (if address cfg \<noteq> []
      then bnd (filter_dae dae (addressPred cfg)) (\<lambda>filtered. ret (dae\<lparr>Entries := filtered\<rparr>))
      else ret dae)"

definition userStage :: "config \<Rightarrow> datedAuthEntries \<Rightarrow> ('n, datedAuthEntries) prog" where
  "userStage cfg dae =
     (if user cfg \<noteq> []
      then bnd (filter_dae dae (userPred cfg)) (\<lambda>filtered. ret (dae\<lparr>Entries := filtered\<rparr>))
      else ret dae)"

definition locateStage :: "'n env \<Rightarrow> datedAuthEntries \<Rightarrow> ('n, datedAuthEntries) prog" where
  "locateStage env dae =
     bnd (apply_dae dae (locateEntry env)) (\<lambda>located. ret (dae\<lparr>Entries := located\<rparr>))"

definition localeStage :: "'n env \<Rightarrow> config \<Rightarrow> datedAuthEntries \<Rightarrow> ('n, datedAuthEntries) prog" where
  "localeStage env cfg dae =
     (if locale_flag cfg \<noteq> []
      then bnd (filter_dae dae (localePred env cfg)) (\<lambda>filtered. ret (dae\<lparr>Entries := filtered\<rparr>))
      else ret dae)"

definition filterDay :: "'n env \<Rightarrow> config \<Rightarrow> datedAuthEntries \<Rightarrow> ('n, datedAuthEntries) prog" where
  "filterDay env cfg dae =
     bnd (countStage cfg dae) (\<lambda>d1.
     bnd (addressStage cfg d1) (\<lambda>d2.
     bnd (userStage cfg d2) (\<lambda>d3.
     bnd (locateStage env d3) (\<lambda>d4.
     localeStage env cfg d4))))"

text \<open>\<^verbatim>\<open>for idx := range dae\<close>: the buckets in order, each replaced by its filtered self.\<close>

primrec applyEntryFilters :: "'n env \<Rightarrow> config \<Rightarrow> allEntries \<Rightarrow> ('n, allEntries) prog" where
  "applyEntryFilters env cfg [] = ret []"
| "applyEntryFilters env cfg (dae # rest) =
     bnd (filterDay env cfg dae) (\<lambda>dae'.
     bnd (applyEntryFilters env cfg rest) (\<lambda>rest'.
     ret (dae' # rest')))"

subsection \<open>main, from the parsed attempts on\<close>

text \<open>
  \<open>main_filters\<close> is \<^verbatim>\<open>main\<close> from \<^verbatim>\<open>if date != ""\<close> to its end, on the store that
  \<^verbatim>\<open>parseSSHAttempts\<close> returned; \<open>filterAndPrint\<close> is the part after the date filter.
\<close>

definition filterAndPrint :: "'n env \<Rightarrow> config \<Rightarrow> allEntries \<Rightarrow> ('n, unit) prog" where
  "filterAndPrint env cfg attempts =
     bnd (applyEntryFilters env cfg attempts) (\<lambda>filtered.
     emits (map Stdout
       (if jsonOut cfg then jsonPrint filtered
        else print (threshold cfg) (formatFloat env) filtered)))"

definition main_filters :: "'n env \<Rightarrow> config \<Rightarrow> allEntries \<Rightarrow> ('n, unit) prog" where
  "main_filters env cfg parsed =
     (if date cfg \<noteq> []
      then (case applyDateFilter cfg parsed of
              None \<Rightarrow> emits [LogNoDateMatch]
            | Some attempts \<Rightarrow> filterAndPrint env cfg attempts)
      else filterAndPrint env cfg parsed)"

section \<open>A concrete run\<close>

text \<open>
  The store of the example of section 8 of the specification, a service that answers
  every request with an error and one that fails for one IP only, a pattern compiler
  that rejects \<^verbatim>\<open>(\<close>, some flag settings, and a store with a location left in an entry.
\<close>

definition exampleStore :: allEntries where
  "exampleStore =
     [\<lparr>Date = ''Jan 1'', Entries =
         [\<lparr>IP = ''10.0.0.1'', Location = zeroLocation, Count = 2, Users = [''admin'', ''root'']\<rparr>]\<rparr>,
      \<lparr>Date = ''Jan 2'', Entries =
         [\<lparr>IP = ''10.0.0.2'', Location = zeroLocation, Count = 1, Users = [''admin'']\<rparr>]\<rparr>]"

definition noFilters :: config where
  "noFilters = \<lparr>jsonOut = False, threshold = 0, address = [], user = [], locale_flag = [], date = []\<rparr>"

definition offline :: "nat env" where
  "offline = \<lparr>ipapi = (\<lambda>n ip. (Inl ''timeout'', Suc n)),
     regexpCompile = (\<lambda>pat. if pat = ''('' then None else Some (\<lambda>str. True)),
     formatFloat = (\<lambda>x. ''0.000000'')\<rparr>"

definition atLeastTwo :: config where
  "atLeastTwo = noFilters\<lparr>threshold := 2\<rparr>"

definition badPattern :: config where
  "badPattern = noFilters\<lparr>locale_flag := ''(''\<rparr>"

definition amsterdam :: location where
  "amsterdam = \<lparr>Country = ''Netherlands'', Region = ''North Holland'', City = ''Amsterdam'',
     Lat = 4632567239574667919, Long = 4617191668971848335\<rparr>"

definition flaky :: "nat env" where
  "flaky = \<lparr>ipapi = (\<lambda>n ip. (if ip = ''10.0.0.2'' then Inl ''timeout'' else Inr amsterdam, Suc n)),
     regexpCompile = (\<lambda>pat. if pat = ''('' then None else Some (\<lambda>str. True)),
     formatFloat = (\<lambda>x. if x = 0 then ''0.000000''
       else if x = 4632567239574667919 then ''52.370000'' else ''4.890000'')\<rparr>"

definition staleStore :: allEntries where
  "staleStore =
     [\<lparr>Date = ''Jan 1'', Entries =
         [\<lparr>IP = ''10.0.0.1'', Location = zeroLocation, Count = 2, Users = [''admin'', ''root'']\<rparr>]\<rparr>,
      \<lparr>Date = ''Jan 2'', Entries =
         [\<lparr>IP = ''10.0.0.2'', Location = amsterdam, Count = 1, Users = [''admin'']\<rparr>]\<rparr>]"

definition startWorld :: "nat world" where
  "startWorld = \<lparr>net = 0, trace = []\<rparr>"

definition exampleLines :: "string list" where
  "exampleLines =
     [''Jan 1 ... Failed password for admin from 10.0.0.1 port 22 ssh2'',
      ''Jan 1 ... session opened'',
      ''Jan 1 ... Failed password for root from 10.0.0.1 port 22 ssh2'',
      ''Jan 2 ... Failed password for admin from 10.0.0.2 port 22 ssh2'']"

definition exampleRecognise :: "string \<Rightarrow> (string \<times> string \<times> string) option" where
  "exampleRecognise line =
     (if line = ''Jan 1 ... Failed password for admin from 10.0.0.1 port 22 ssh2''
      then Some (''Jan 1'', ''10.0.0.1'', ''admin'')
      else if line = ''Jan 1 ... Failed password for root from 10.0.0.1 port 22 ssh2''
      then Some (''Jan 1'', ''10.0.0.1'', ''root'')
      else if line = ''Jan 2 ... Failed password for admin from 10.0.0.2 port 22 ssh2''
      then Some (''Jan 2'', ''10.0.0.2'', ''admin'')
      else None)"

section \<open>Vocabulary of the statements\<close>

text \<open>
  The entries of a bucket that the count, IP and user criteria keep, each criterion
  counting only when it is supplied; what the trace says about requests to the
  geolocation service and about calls of \<^verbatim>\<open>regexp.MustCompile\<close>; an entry without its
  location.
\<close>

definition keeps :: "config \<Rightarrow> authEntry \<Rightarrow> bool" where
  "keeps cfg ae \<longleftrightarrow>
     (if word_sless 0 (threshold cfg) then word_sle (threshold cfg) (Count ae) else True) \<and>
     (if address cfg \<noteq> [] then IP ae = address cfg else True) \<and>
     (if user cfg \<noteq> [] then user cfg \<in> set (Users ae) else True)"

definition survivors :: "config \<Rightarrow> datedAuthEntries \<Rightarrow> authEntry list" where
  "survivors cfg dae = filter (keeps cfg) (Entries dae)"

fun requestsOf :: "event list \<Rightarrow> string list" where
  "requestsOf [] = []"
| "requestsOf (Request ip # es) = ip # requestsOf es"
| "requestsOf (e # es) = requestsOf es"

fun compilesOf :: "event list \<Rightarrow> string list" where
  "compilesOf [] = []"
| "compilesOf (Compile pat # es) = pat # compilesOf es"
| "compilesOf (e # es) = compilesOf es"

definition eraseLocation :: "authEntry \<Rightarrow> authEntry" where
  "eraseLocation ae = ae\<lparr>Location := zeroLocation\<rparr>"

text \<open>
  What the claim about lookup failures says the geolocation step does to a list of
  entries, written out directly: each entry is looked up in turn from the network state
  the previous lookup left; a failure leaves the entry with the zero-value location and
  is logged after the request, a success stores the location. \<open>resolveStore\<close> does so
  for the survivors of each bucket in turn. Both return the entries, the events and the
  final network state.
\<close>

primrec resolveAll ::
  "'n env \<Rightarrow> 'n \<Rightarrow> authEntry list \<Rightarrow> authEntry list \<times> event list \<times> 'n" where
  "resolveAll env n [] = ([], [], n)"
| "resolveAll env n (ae # rest) =
     (case ipapi env n (IP ae) of
        (Inl err, n1) \<Rightarrow>
          (case resolveAll env n1 rest of
             (rest', evs, n2) \<Rightarrow>
               (ae\<lparr>Location := zeroLocation\<rparr> # rest',
                Request (IP ae) # LogLocateError (IP ae) err # evs, n2))
      | (Inr loc, n1) \<Rightarrow>
          (case resolveAll env n1 rest of
             (rest', evs, n2) \<Rightarrow>
               (ae\<lparr>Location := loc\<rparr> # rest', Request (IP ae) # evs, n2)))"

primrec resolveStore ::
  "'n env \<Rightarrow> config \<Rightarrow> 'n \<Rightarrow> allEntries \<Rightarrow> allEntries \<times> event list \<times> 'n" where
  "resolveStore env cfg n [] = ([], [], n)"
| "resolveStore env cfg n (dae # rest) =
     (case resolveAll env n (survivors cfg dae) of
        (es', evs1, n1) \<Rightarrow>
          (case resolveStore env cfg n1 rest of
             (rest', evs2, n2) \<Rightarrow> (dae\<lparr>Entries := es'\<rparr> # rest', evs1 @ evs2, n2)))"

text \<open>
  For the parse pass: the store's invariant, its entries as one list of (date, entry)
  pairs in store order, the pairs of one date and IP, and what recording an attempt does
  to the entry list of a bucket.
\<close>

definition uniqueIPs :: "allEntries \<Rightarrow> bool" where
  "uniqueIPs s \<longleftrightarrow>
     distinct (map Date s) \<and> (\<forall>dae \<in> set s. distinct (map IP (Entries dae)))"

definition located :: "allEntries \<Rightarrow> (string \<times> authEntry) list" where
  "located s = concat (map (\<lambda>dae. map (Pair (Date dae)) (Entries dae)) s)"

definition isFor :: "string \<Rightarrow> string \<Rightarrow> string \<times> authEntry \<Rightarrow> bool" where
  "isFor d ip x \<longleftrightarrow> fst x = d \<and> IP (snd x) = ip"

primrec bumpFirst :: "authEntry list \<Rightarrow> string \<Rightarrow> string \<Rightarrow> authEntry list" where
  "bumpFirst [] ip name = [newEntry ip name]"
| "bumpFirst (ae # rest) ip name =
     (if IP ae = ip then addUser ae name # rest else ae # bumpFirst rest ip name)"

section \<open>Properties of addUser\<close>

lemma hasUser_iff: "hasUser name us \<longleftrightarrow> name \<in> set us"
  by (induction us) auto

lemma addUser_Users:
  "Users (addUser ae name) = (if name \<in> set (Users ae) then Users ae else Users ae @ [name])"
  by (simp add: addUser_def Let_def hasUser_iff)

lemma addUser_Count: "Count (addUser ae name) = Count ae + 1"
  by (simp add: addUser_def Let_def)

lemma addUser_IP: "IP (addUser ae name) = IP ae"
  by (simp add: addUser_def Let_def)

lemma addUser_Location: "Location (addUser ae name) = Location ae"
  by (simp add: addUser_def Let_def)

lemma addUser_distinct: "distinct (Users ae) \<Longrightarrow> distinct (Users (addUser ae name))"
  by (simp add: addUser_Users)

lemma foldl_addUser_distinct:
  "distinct (Users ae) \<Longrightarrow> distinct (Users (foldl addUser ae us))"
  by (induction us arbitrary: ae) (simp_all add: addUser_distinct)

text \<open>
  C5. Starting from an entry whose \<open>Users\<close> has no duplicate, in particular from
  one with a single user, no sequence of \<open>addUser\<close> calls produces one: a call with a
  username already
  present leaves \<open>Users\<close> as it is, a call with a new username appends it at the
  end, and either way \<open>Count\<close> goes up by one.
\<close>

theorem addUser_never_duplicates:
  "(distinct (Users ae) \<longrightarrow> distinct (Users (foldl addUser ae us))) \<and>
   distinct (Users (foldl addUser (ae\<lparr>Users := [first]\<rparr>) us)) \<and>
   (name \<in> set (Users ae) \<longrightarrow> Users (addUser ae name) = Users ae) \<and>
   (name \<notin> set (Users ae) \<longrightarrow> Users (addUser ae name) = Users ae @ [name]) \<and>
   Count (addUser ae name) = Count ae + 1"
  by (simp add: foldl_addUser_distinct addUser_Users addUser_Count)

theorem addUser_never_duplicates_witness:
  "distinct (Users (foldl addUser
      \<lparr>IP = ''10.0.0.1'', Location = zeroLocation, Count = 1, Users = [''admin'']\<rparr>
      [''root'', ''admin'', ''root''])) \<and>
   Users (foldl addUser
      \<lparr>IP = ''10.0.0.1'', Location = zeroLocation, Count = 1, Users = [''admin'']\<rparr>
      [''root'', ''admin'', ''root'']) = [''admin'', ''root''] \<and>
   Users (addUser \<lparr>IP = ''10.0.0.1'', Location = zeroLocation, Count = 1, Users = [''admin'']\<rparr>
      ''admin'') = [''admin''] \<and>
   Count (addUser \<lparr>IP = ''10.0.0.1'', Location = zeroLocation, Count = 1, Users = [''admin'']\<rparr>
      ''admin'') = 2"
  using addUser_never_duplicates
    [where ae = "\<lparr>IP = ''10.0.0.1'', Location = zeroLocation, Count = 1, Users = [''admin'']\<rparr>"
      and us = "[''root'', ''admin'', ''root'']" and name = "''admin''"]
  by (simp add: addUser_def)

section \<open>The filter stages\<close>

lemma bnd_ret [simp]: "bnd (ret x) f = f x"
  by (rule ext) (simp add: bnd_def ret_def)

lemma bnd_raise [simp]: "bnd (raise p) f = raise p"
  by (rule ext) (simp add: bnd_def raise_def)

lemma bnd_Inr: "m w = (Inr x, w') \<Longrightarrow> bnd m f w = f x w'"
  by (simp add: bnd_def)

lemma bnd_Inl: "m w = (Inl p, w') \<Longrightarrow> bnd m f w = (Inl p, w')"
  by (simp add: bnd_def)

lemma filterEntries_pure: "filterEntries (\<lambda>ae. ret (P ae)) es = ret (filter P es)"
  by (induction es) simp_all

lemma countStage_eq:
  "countStage cfg dae =
     ret (dae\<lparr>Entries := (if word_sless 0 (threshold cfg)
        then filter (\<lambda>ae. word_sle (threshold cfg) (Count ae)) (Entries dae) else Entries dae)\<rparr>)"
  by (simp add: countStage_def filter_dae_def countPred_def [abs_def] filterEntries_pure)

lemma addressStage_eq:
  "addressStage cfg dae =
     ret (dae\<lparr>Entries := (if address cfg \<noteq> []
        then filter (\<lambda>ae. IP ae = address cfg) (Entries dae) else Entries dae)\<rparr>)"
  by (simp add: addressStage_def filter_dae_def addressPred_def [abs_def] filterEntries_pure)

lemma userStage_eq:
  "userStage cfg dae =
     ret (dae\<lparr>Entries := (if user cfg \<noteq> []
        then filter (\<lambda>ae. user cfg \<in> set (Users ae)) (Entries dae) else Entries dae)\<rparr>)"
  by (simp add: userStage_def filter_dae_def userPred_def [abs_def] filterEntries_pure hasUser_iff)

lemma pure_stages:
  "bnd (countStage cfg dae) (\<lambda>d1. bnd (addressStage cfg d1) (userStage cfg)) =
     ret (dae\<lparr>Entries := survivors cfg dae\<rparr>)"
  by (auto simp add: countStage_eq addressStage_eq userStage_eq survivors_def
      keeps_def [abs_def] conj_commute conj_left_commute)

lemma requestsOf_append: "requestsOf (xs @ ys) = requestsOf xs @ requestsOf ys"
  by (induction xs rule: requestsOf.induct) simp_all

lemma compilesOf_append: "compilesOf (xs @ ys) = compilesOf xs @ compilesOf ys"
  by (induction xs rule: compilesOf.induct) simp_all


lemma bnd_assoc: "bnd (bnd m f) g = bnd m (\<lambda>x. bnd (f x) g)"
  by (rule ext) (simp add: bnd_def split: prod.splits sum.splits)

lemma locateEntry_run:
  "locateEntry env ae w =
     (case ipapi env (net w) (IP ae) of
        (Inl err, n') \<Rightarrow>
          (Inr (ae\<lparr>Location := zeroLocation\<rparr>),
           w\<lparr>net := n', trace := trace w @ [Request (IP ae), LogLocateError (IP ae) err]\<rparr>)
      | (Inr loc, n') \<Rightarrow>
          (Inr (ae\<lparr>Location := loc\<rparr>),
           w\<lparr>net := n', trace := trace w @ [Request (IP ae)]\<rparr>))"
  by (simp add: locateEntry_def locateIP_def bnd_def ret_def emits_def
      split: prod.splits sum.splits)

lemma locateEntry_ok:
  "\<exists>loc w'. locateEntry env ae w = (Inr (ae\<lparr>Location := loc\<rparr>), w') \<and>
     requestsOf (trace w') = requestsOf (trace w) @ [IP ae] \<and>
     compilesOf (trace w') = compilesOf (trace w)"
  by (auto simp add: locateEntry_run requestsOf_append compilesOf_append
      split: prod.splits sum.splits)

lemma applyEntries_locate:
  "\<exists>es' w'. applyEntries (locateEntry env) es w = (Inr es', w') \<and>
     map eraseLocation es' = map eraseLocation es \<and>
     requestsOf (trace w') = requestsOf (trace w) @ map IP es \<and>
     compilesOf (trace w') = compilesOf (trace w)"
proof (induction es arbitrary: w)
  case Nil
  show ?case by (simp add: ret_def)
next
  case (Cons ae es)
  obtain loc w1 where
    h: "locateEntry env ae w = (Inr (ae\<lparr>Location := loc\<rparr>), w1)"
       "requestsOf (trace w1) = requestsOf (trace w) @ [IP ae]"
       "compilesOf (trace w1) = compilesOf (trace w)"
    using locateEntry_ok [of env ae w] by blast
  obtain es' w2 where
    t: "applyEntries (locateEntry env) es w1 = (Inr es', w2)"
       "map eraseLocation es' = map eraseLocation es"
       "requestsOf (trace w2) = requestsOf (trace w1) @ map IP es"
       "compilesOf (trace w2) = compilesOf (trace w1)"
    using Cons.IH [of w1] by blast
  have "applyEntries (locateEntry env) (ae # es) w = (Inr (ae\<lparr>Location := loc\<rparr> # es'), w2)"
    by (simp add: bnd_def h(1) t(1) ret_def)
  moreover have "map eraseLocation (ae\<lparr>Location := loc\<rparr> # es') = map eraseLocation (ae # es)"
    by (simp add: t(2) eraseLocation_def)
  ultimately show ?case
    using h(2,3) t(3,4) by simp
qed

lemma localePred_valid:
  "regexpCompile env (locale_flag cfg) = Some rx \<Longrightarrow>
   localePred env cfg ae w =
     (Inr (rx (composeLocationString (formatFloat env) (Location ae))),
      w\<lparr>trace := trace w @ [Compile (locale_flag cfg)]\<rparr>)"
  by (simp add: localePred_def bnd_def emits_def ret_def)

lemma filterEntries_locale_valid:
  "regexpCompile env (locale_flag cfg) = Some rx \<Longrightarrow>
   filterEntries (localePred env cfg) es w =
     (Inr (filter (\<lambda>ae. rx (composeLocationString (formatFloat env) (Location ae))) es),
      w\<lparr>trace := trace w @ replicate (length es) (Compile (locale_flag cfg))\<rparr>)"
proof (induction es arbitrary: w)
  case Nil
  show ?case by (simp add: ret_def)
next
  case (Cons ae es)
  let ?w1 = "w\<lparr>trace := trace w @ [Compile (locale_flag cfg)]\<rparr>"
  let ?keep = "rx (composeLocationString (formatFloat env) (Location ae))"
  have 1: "localePred env cfg ae w = (Inr ?keep, ?w1)"
    by (rule localePred_valid [OF Cons.prems])
  note 2 = Cons.IH [OF Cons.prems, of ?w1]
  show ?case
    by (simp add: bnd_def 1 2 ret_def)
qed

lemma filterEntries_locale_invalid:
  "regexpCompile env (locale_flag cfg) = None \<Longrightarrow>
   filterEntries (localePred env cfg) es w =
     (if es = [] then (Inr [], w)
      else (Inl (RegexpPanic (locale_flag cfg)),
            w\<lparr>trace := trace w @ [Compile (locale_flag cfg)]\<rparr>))"
  by (cases es) (simp_all add: localePred_def bnd_def emits_def ret_def raise_def)

lemma filterDay_eq:
  "filterDay env cfg dae =
     bnd (locateStage env (dae\<lparr>Entries := survivors cfg dae\<rparr>)) (localeStage env cfg)"
proof -
  have "filterDay env cfg dae =
      bnd (bnd (countStage cfg dae) (\<lambda>d1. bnd (addressStage cfg d1) (userStage cfg)))
        (\<lambda>d3. bnd (locateStage env d3) (localeStage env cfg))"
    by (simp add: filterDay_def bnd_assoc)
  then show ?thesis
    by (simp only: pure_stages bnd_ret)
qed


lemma compilesOf_replicate [simp]: "compilesOf (replicate n (Compile p)) = replicate n p"
  by (induction n) simp_all

lemma requestsOf_replicate [simp]: "requestsOf (replicate n (Compile p)) = []"
  by (induction n) simp_all

lemma locateStage_ok:
  "\<exists>es' w'. locateStage env dae w = (Inr (dae\<lparr>Entries := es'\<rparr>), w') \<and>
     map eraseLocation es' = map eraseLocation (Entries dae) \<and>
     requestsOf (trace w') = requestsOf (trace w) @ map IP (Entries dae) \<and>
     compilesOf (trace w') = compilesOf (trace w)"
proof -
  obtain es' w' where
    h: "applyEntries (locateEntry env) (Entries dae) w = (Inr es', w')"
       "map eraseLocation es' = map eraseLocation (Entries dae)"
       "requestsOf (trace w') = requestsOf (trace w) @ map IP (Entries dae)"
       "compilesOf (trace w') = compilesOf (trace w)"
    using applyEntries_locate [of env "Entries dae" w] by blast
  have "locateStage env dae w = (Inr (dae\<lparr>Entries := es'\<rparr>), w')"
    by (simp add: locateStage_def apply_dae_def bnd_def h(1) ret_def)
  with h(2-4) show ?thesis by blast
qed

lemma localeStage_off:
  "locale_flag cfg = [] \<Longrightarrow> localeStage env cfg dae w = (Inr dae, w)"
  by (simp add: localeStage_def ret_def)

lemma localeStage_valid:
  "locale_flag cfg \<noteq> [] \<Longrightarrow> regexpCompile env (locale_flag cfg) = Some rx \<Longrightarrow>
   localeStage env cfg dae w =
     (Inr (dae\<lparr>Entries :=
         filter (\<lambda>ae. rx (composeLocationString (formatFloat env) (Location ae))) (Entries dae)\<rparr>),
      w\<lparr>trace := trace w @ replicate (length (Entries dae)) (Compile (locale_flag cfg))\<rparr>)"
  by (simp add: localeStage_def filter_dae_def bnd_def filterEntries_locale_valid ret_def)

lemma localeStage_invalid:
  "locale_flag cfg \<noteq> [] \<Longrightarrow> regexpCompile env (locale_flag cfg) = None \<Longrightarrow>
   localeStage env cfg dae w =
     (if Entries dae = [] then (Inr (dae\<lparr>Entries := []\<rparr>), w)
      else (Inl (RegexpPanic (locale_flag cfg)),
            w\<lparr>trace := trace w @ [Compile (locale_flag cfg)]\<rparr>))"
  by (simp add: localeStage_def filter_dae_def bnd_def filterEntries_locale_invalid ret_def)

lemma localeStage_Date:
  "localeStage env cfg dae w = (Inr d', w') \<Longrightarrow> Date d' = Date dae"
  by (auto simp add: localeStage_def bnd_def ret_def split: if_splits prod.splits sum.splits)

lemma filterDay_Date:
  assumes "filterDay env cfg dae w = (Inr d', w')"
  shows "Date d' = Date dae"
proof -
  obtain es' w1 where
    h: "locateStage env (dae\<lparr>Entries := survivors cfg dae\<rparr>) w =
          (Inr (dae\<lparr>Entries := es'\<rparr>), w1)"
    using locateStage_ok [of env "dae\<lparr>Entries := survivors cfg dae\<rparr>" w] by auto
  have "localeStage env cfg (dae\<lparr>Entries := es'\<rparr>) w1 = (Inr d', w')"
    using assms by (simp add: filterDay_eq bnd_def h)
  then show ?thesis
    using localeStage_Date by fastforce
qed

lemma filterDay_ok:
  assumes "locale_flag cfg = [] \<or> regexpCompile env (locale_flag cfg) \<noteq> None"
  shows "\<exists>d' w'. filterDay env cfg dae w = (Inr d', w') \<and>
     requestsOf (trace w') = requestsOf (trace w) @ map IP (survivors cfg dae) \<and>
     compilesOf (trace w') = compilesOf (trace w) @
       (if locale_flag cfg = [] then []
        else replicate (length (survivors cfg dae)) (locale_flag cfg)) \<and>
     (locale_flag cfg = [] \<longrightarrow>
        map eraseLocation (Entries d') = map eraseLocation (survivors cfg dae))"
proof -
  obtain es' w1 where
    h: "locateStage env (dae\<lparr>Entries := survivors cfg dae\<rparr>) w =
          (Inr (dae\<lparr>Entries := es'\<rparr>), w1)"
       "map eraseLocation es' = map eraseLocation (survivors cfg dae)"
       "requestsOf (trace w1) = requestsOf (trace w) @ map IP (survivors cfg dae)"
       "compilesOf (trace w1) = compilesOf (trace w)"
    using locateStage_ok [of env "dae\<lparr>Entries := survivors cfg dae\<rparr>" w] by auto
  have len: "length es' = length (survivors cfg dae)"
    using h(2) by (metis length_map)
  have run: "filterDay env cfg dae w = localeStage env cfg (dae\<lparr>Entries := es'\<rparr>) w1"
    by (simp add: filterDay_eq bnd_def h(1))
  show ?thesis
  proof (cases "locale_flag cfg = []")
    case True
    then show ?thesis
      using h(2-4) by (simp add: run localeStage_off)
  next
    case False
    with assms obtain rx where rx: "regexpCompile env (locale_flag cfg) = Some rx"
      by auto
    show ?thesis
      using h(3,4) False
      by (simp add: run localeStage_valid [OF False rx] requestsOf_append compilesOf_append len)
  qed
qed

lemma filterDay_invalid:
  assumes "locale_flag cfg \<noteq> []" and "regexpCompile env (locale_flag cfg) = None"
  shows "(survivors cfg dae = [] \<longrightarrow>
            (\<exists>w'. filterDay env cfg dae w = (Inr (dae\<lparr>Entries := []\<rparr>), w') \<and>
               compilesOf (trace w') = compilesOf (trace w))) \<and>
         (survivors cfg dae \<noteq> [] \<longrightarrow>
            (\<exists>w'. filterDay env cfg dae w = (Inl (RegexpPanic (locale_flag cfg)), w') \<and>
               compilesOf (trace w') = compilesOf (trace w) @ [locale_flag cfg]))"
proof -
  obtain es' w1 where
    h: "locateStage env (dae\<lparr>Entries := survivors cfg dae\<rparr>) w =
          (Inr (dae\<lparr>Entries := es'\<rparr>), w1)"
       "map eraseLocation es' = map eraseLocation (survivors cfg dae)"
       "compilesOf (trace w1) = compilesOf (trace w)"
    using locateStage_ok [of env "dae\<lparr>Entries := survivors cfg dae\<rparr>" w] by auto
  have len: "length es' = length (survivors cfg dae)"
    using h(2) by (metis length_map)
  then have emp: "es' = [] \<longleftrightarrow> survivors cfg dae = []"
    by auto
  have run: "filterDay env cfg dae w = localeStage env cfg (dae\<lparr>Entries := es'\<rparr>) w1"
    by (simp add: filterDay_eq bnd_def h(1))
  show ?thesis
    using h(3) emp
    by (simp add: run localeStage_invalid [OF assms] compilesOf_append)
qed


lemma applyEntryFilters_Date:
  "applyEntryFilters env cfg s w = (Inr s', w') \<Longrightarrow> map Date s' = map Date s"
proof (induction s arbitrary: w s')
  case Nil
  then show ?case by (simp add: ret_def)
next
  case (Cons dae rest)
  from Cons.prems obtain d' w1 where
    d: "filterDay env cfg dae w = (Inr d', w1)"
    by (auto simp add: bnd_def split: prod.splits sum.splits)
  from Cons.prems d obtain rest' where
    r: "applyEntryFilters env cfg rest w1 = (Inr rest', w')" and s': "s' = d' # rest'"
    by (auto simp add: bnd_def ret_def split: prod.splits sum.splits)
  show ?case
    using filterDay_Date [OF d] Cons.IH [OF r] s' by simp
qed

lemma applyEntryFilters_ok:
  assumes "locale_flag cfg = [] \<or> regexpCompile env (locale_flag cfg) \<noteq> None"
  shows "\<exists>s' w'. applyEntryFilters env cfg s w = (Inr s', w') \<and>
     requestsOf (trace w') =
       requestsOf (trace w) @ concat (map (\<lambda>dae. map IP (survivors cfg dae)) s) \<and>
     compilesOf (trace w') = compilesOf (trace w) @
       (if locale_flag cfg = [] then []
        else replicate (length (concat (map (survivors cfg) s))) (locale_flag cfg)) \<and>
     (locale_flag cfg = [] \<longrightarrow>
        map (\<lambda>dae. map eraseLocation (Entries dae)) s' =
        map (\<lambda>dae. map eraseLocation (survivors cfg dae)) s)"
proof (induction s arbitrary: w)
  case Nil
  show ?case by (simp add: ret_def)
next
  case (Cons dae rest)
  obtain d' w1 where
    d: "filterDay env cfg dae w = (Inr d', w1)"
       "requestsOf (trace w1) = requestsOf (trace w) @ map IP (survivors cfg dae)"
       "compilesOf (trace w1) = compilesOf (trace w) @
          (if locale_flag cfg = [] then []
           else replicate (length (survivors cfg dae)) (locale_flag cfg))"
       "locale_flag cfg = [] \<longrightarrow>
          map eraseLocation (Entries d') = map eraseLocation (survivors cfg dae)"
    using filterDay_ok [OF assms, of dae w] by blast
  obtain rest' w2 where
    r: "applyEntryFilters env cfg rest w1 = (Inr rest', w2)"
       "requestsOf (trace w2) =
          requestsOf (trace w1) @ concat (map (\<lambda>dae. map IP (survivors cfg dae)) rest)"
       "compilesOf (trace w2) = compilesOf (trace w1) @
          (if locale_flag cfg = [] then []
           else replicate (length (concat (map (survivors cfg) rest))) (locale_flag cfg))"
       "locale_flag cfg = [] \<longrightarrow>
          map (\<lambda>dae. map eraseLocation (Entries dae)) rest' =
          map (\<lambda>dae. map eraseLocation (survivors cfg dae)) rest"
    using Cons.IH [of w1] by blast
  have run: "applyEntryFilters env cfg (dae # rest) w = (Inr (d' # rest'), w2)"
    by (simp add: bnd_def d(1) r(1) ret_def)
  show ?case
    using d(2-4) r(2-4) by (simp add: run replicate_add del: applyEntryFilters.simps)
qed

lemma applyEntryFilters_invalid_empty:
  assumes "locale_flag cfg \<noteq> []" and "regexpCompile env (locale_flag cfg) = None"
    and "\<forall>dae \<in> set s. survivors cfg dae = []"
  shows "\<exists>w'. applyEntryFilters env cfg s w = (Inr (map (\<lambda>dae. dae\<lparr>Entries := []\<rparr>) s), w') \<and>
     compilesOf (trace w') = compilesOf (trace w)"
  using assms(3)
proof (induction s arbitrary: w)
  case Nil
  show ?case by (simp add: ret_def)
next
  case (Cons dae rest)
  from Cons.prems have e: "survivors cfg dae = []" by simp
  obtain w1 where
    d: "filterDay env cfg dae w = (Inr (dae\<lparr>Entries := []\<rparr>), w1)"
       "compilesOf (trace w1) = compilesOf (trace w)"
    using filterDay_invalid [OF assms(1,2), of dae w] e by blast
  obtain w2 where
    r: "applyEntryFilters env cfg rest w1 =
          (Inr (map (\<lambda>dae. dae\<lparr>Entries := []\<rparr>) rest), w2)"
       "compilesOf (trace w2) = compilesOf (trace w1)"
    using Cons.IH [of w1] Cons.prems by auto
  show ?case
    using d(2) r(2) by (simp add: bnd_def d(1) r(1) ret_def)
qed

lemma applyEntryFilters_invalid_panic:
  assumes "locale_flag cfg \<noteq> []" and "regexpCompile env (locale_flag cfg) = None"
    and "\<exists>dae \<in> set s. survivors cfg dae \<noteq> []"
  shows "\<exists>w'. applyEntryFilters env cfg s w = (Inl (RegexpPanic (locale_flag cfg)), w') \<and>
     compilesOf (trace w') = compilesOf (trace w) @ [locale_flag cfg]"
  using assms(3)
proof (induction s arbitrary: w)
  case Nil
  then show ?case by simp
next
  case (Cons dae rest)
  show ?case
  proof (cases "survivors cfg dae = []")
    case True
    obtain w1 where
      d: "filterDay env cfg dae w = (Inr (dae\<lparr>Entries := []\<rparr>), w1)"
         "compilesOf (trace w1) = compilesOf (trace w)"
      using filterDay_invalid [OF assms(1,2), of dae w] True by blast
    from Cons.prems True have "\<exists>dae \<in> set rest. survivors cfg dae \<noteq> []" by simp
    then obtain w2 where
      r: "applyEntryFilters env cfg rest w1 = (Inl (RegexpPanic (locale_flag cfg)), w2)"
         "compilesOf (trace w2) = compilesOf (trace w1) @ [locale_flag cfg]"
      using Cons.IH [of w1] by blast
    show ?thesis
      using d(2) r(2) by (simp add: bnd_def d(1) r(1))
  next
    case False
    obtain w1 where
      d: "filterDay env cfg dae w = (Inl (RegexpPanic (locale_flag cfg)), w1)"
         "compilesOf (trace w1) = compilesOf (trace w) @ [locale_flag cfg]"
      using filterDay_invalid [OF assms(1,2), of dae w] False by blast
    show ?thesis
      using d(2) by (simp add: bnd_def d(1))
  qed
qed

section \<open>The entry filters\<close>

text \<open>
  C3. The entries the count, IP and user blocks leave in a bucket are its \<open>survivors\<close>,
  and whenever the run does not panic (no location filter, or a pattern that compiles)
  the requests made to the geolocation service are exactly the IPs of the survivors, one
  request per surviving entry, bucket by bucket in store order. In particular with no
  location filter every surviving entry is still looked up.
\<close>

theorem geolocation_for_every_survivor:
  assumes "locale_flag cfg = [] \<or> regexpCompile env (locale_flag cfg) \<noteq> None"
  shows "bnd (countStage cfg dae) (\<lambda>d1. bnd (addressStage cfg d1) (userStage cfg)) w =
           (Inr (dae\<lparr>Entries := survivors cfg dae\<rparr>), w) \<and>
         (\<exists>s' w'. applyEntryFilters env cfg s w = (Inr s', w') \<and>
            requestsOf (trace w') =
              requestsOf (trace w) @ concat (map (\<lambda>dae. map IP (survivors cfg dae)) s))"
proof
  show "bnd (countStage cfg dae) (\<lambda>d1. bnd (addressStage cfg d1) (userStage cfg)) w =
          (Inr (dae\<lparr>Entries := survivors cfg dae\<rparr>), w)"
    by (simp add: pure_stages ret_def)
  show "\<exists>s' w'. applyEntryFilters env cfg s w = (Inr s', w') \<and>
          requestsOf (trace w') =
            requestsOf (trace w) @ concat (map (\<lambda>dae. map IP (survivors cfg dae)) s)"
    using applyEntryFilters_ok [OF assms, of s w] by blast
qed

theorem geolocation_for_every_survivor_witness:
  "\<exists>s' w'. applyEntryFilters offline noFilters exampleStore startWorld = (Inr s', w') \<and>
     requestsOf (trace w') = [''10.0.0.1'', ''10.0.0.2'']"
  using geolocation_for_every_survivor
    [where cfg = noFilters and env = offline and s = exampleStore and w = startWorld]
  by (simp add: noFilters_def exampleStore_def startWorld_def survivors_def keeps_def
      del: applyEntryFilters.simps)


lemmas run_defs =
  filterDay_def countStage_def addressStage_def userStage_def locateStage_def localeStage_def
  filter_dae_def apply_dae_def countPred_def addressPred_def userPred_def locateEntry_def
  localePred_def locateIP_def bnd_def ret_def raise_def emits_def word_sle_eq word_sless_alt

text \<open>
  C4. With threshold 0 and no IP, user or location criterion the count block does
  nothing, and \<open>applyEntryFilters\<close> returns the same buckets with the same entry
  sequences, up to the \<open>Location\<close> fields that the geolocation step fills in.
\<close>

theorem threshold_zero_is_identity:
  assumes "threshold cfg = 0" and "address cfg = []" and "user cfg = []"
    and "locale_flag cfg = []"
  shows "countStage cfg dae w = (Inr dae, w) \<and>
         (\<exists>s' w'. applyEntryFilters env cfg s w = (Inr s', w') \<and>
            map Date s' = map Date s \<and>
            map (\<lambda>dae. map eraseLocation (Entries dae)) s' =
            map (\<lambda>dae. map eraseLocation (Entries dae)) s)"
proof
  show "countStage cfg dae w = (Inr dae, w)"
    using assms(1) by (simp add: countStage_def ret_def)
  have all: "survivors cfg = Entries"
    using assms(1-3) by (rule_tac ext) (simp add: survivors_def keeps_def)
  obtain s' w' where
    r: "applyEntryFilters env cfg s w = (Inr s', w')"
       "map (\<lambda>dae. map eraseLocation (Entries dae)) s' =
        map (\<lambda>dae. map eraseLocation (survivors cfg dae)) s"
    using applyEntryFilters_ok [of cfg env s w] assms(4) by auto
  show "\<exists>s' w'. applyEntryFilters env cfg s w = (Inr s', w') \<and>
          map Date s' = map Date s \<and>
          map (\<lambda>dae. map eraseLocation (Entries dae)) s' =
          map (\<lambda>dae. map eraseLocation (Entries dae)) s"
    using r applyEntryFilters_Date [OF r(1)] by (simp add: all)
qed

theorem threshold_zero_is_identity_witness:
  "\<exists>s' w'. applyEntryFilters offline noFilters exampleStore startWorld = (Inr s', w') \<and>
     map Date s' = [''Jan 1'', ''Jan 2''] \<and>
     map (\<lambda>dae. map eraseLocation (Entries dae)) s' =
     map (\<lambda>dae. map eraseLocation (Entries dae)) exampleStore"
  using threshold_zero_is_identity
    [where cfg = noFilters and env = offline and s = exampleStore and w = startWorld]
  by (simp add: noFilters_def exampleStore_def del: applyEntryFilters.simps)

text \<open>
  C6. The count, IP and user blocks commute pairwise: running two of them on a bucket in
  either order gives the same bucket (the same entries in the same order, hence the same
  set), whatever the criteria are and whether or not each is supplied.
\<close>

theorem entry_filters_commute:
  "bnd (addressStage cfg dae) (countStage cfg) w = bnd (countStage cfg dae) (addressStage cfg) w \<and>
   bnd (userStage cfg dae) (countStage cfg) w = bnd (countStage cfg dae) (userStage cfg) w \<and>
   bnd (userStage cfg dae) (addressStage cfg) w = bnd (addressStage cfg dae) (userStage cfg) w"
  by (simp add: countStage_eq addressStage_eq userStage_eq conj_commute)

text \<open>
  C7. After date selection, the entry filters (count, IP, user, geolocation, location:
  \<open>applyEntryFilters\<close>) return as many buckets as they were given, with the same
  dates in the same order: a bucket that loses all its entries stays as an empty
  bucket, and only \<open>Entries\<close> changes. Unless an invalid location pattern panics, they
  do return.
\<close>

theorem buckets_and_dates_preserved:
  "(applyEntryFilters env cfg s w = (Inr s', w') \<longrightarrow>
      map Date s' = map Date s \<and> length s' = length s) \<and>
   (locale_flag cfg = [] \<or> regexpCompile env (locale_flag cfg) \<noteq> None \<longrightarrow>
      (\<exists>s' w'. applyEntryFilters env cfg s w = (Inr s', w')))"
proof (intro conjI impI)
  assume r: "applyEntryFilters env cfg s w = (Inr s', w')"
  show "map Date s' = map Date s"
    by (rule applyEntryFilters_Date [OF r])
  then show "length s' = length s"
    by (metis length_map)
next
  assume "locale_flag cfg = [] \<or> regexpCompile env (locale_flag cfg) \<noteq> None"
  then show "\<exists>s' w'. applyEntryFilters env cfg s w = (Inr s', w')"
    using applyEntryFilters_ok [of cfg env s w] by blast
qed

lemma example_atLeastTwo:
  "applyEntryFilters offline atLeastTwo exampleStore startWorld =
     (Inr [\<lparr>Date = ''Jan 1'', Entries =
             [\<lparr>IP = ''10.0.0.1'', Location = zeroLocation, Count = 2,
               Users = [''admin'', ''root'']\<rparr>]\<rparr>,
           \<lparr>Date = ''Jan 2'', Entries = []\<rparr>],
      \<lparr>net = 1, trace = [Request ''10.0.0.1'', LogLocateError ''10.0.0.1'' ''timeout'']\<rparr>)"
  by (simp add: run_defs offline_def atLeastTwo_def noFilters_def exampleStore_def startWorld_def)

theorem buckets_and_dates_preserved_witness:
  "applyEntryFilters offline atLeastTwo exampleStore startWorld =
     (Inr [\<lparr>Date = ''Jan 1'', Entries =
             [\<lparr>IP = ''10.0.0.1'', Location = zeroLocation, Count = 2,
               Users = [''admin'', ''root'']\<rparr>]\<rparr>,
           \<lparr>Date = ''Jan 2'', Entries = []\<rparr>],
      \<lparr>net = 1, trace = [Request ''10.0.0.1'', LogLocateError ''10.0.0.1'' ''timeout'']\<rparr>) \<and>
   map Date [\<lparr>Date = ''Jan 1'', Entries =
             [\<lparr>IP = ''10.0.0.1'', Location = zeroLocation, Count = 2,
               Users = [''admin'', ''root'']\<rparr>]\<rparr>,
           \<lparr>Date = ''Jan 2'', Entries = []\<rparr>] = map Date exampleStore"
  using buckets_and_dates_preserved [where env = offline and cfg = atLeastTwo
      and s = exampleStore and w = startWorld and s' =
      "[\<lparr>Date = ''Jan 1'', Entries =
             [\<lparr>IP = ''10.0.0.1'', Location = zeroLocation, Count = 2,
               Users = [''admin'', ''root'']\<rparr>]\<rparr>,
           \<lparr>Date = ''Jan 2'', Entries = []\<rparr>]" and w' =
      "\<lparr>net = 1, trace = [Request ''10.0.0.1'', LogLocateError ''10.0.0.1'' ''timeout'']\<rparr>"]
    example_atLeastTwo
  by (simp del: applyEntryFilters.simps)

text \<open>
  Date selection itself does remove buckets: run with the date \<^verbatim>\<open>Jan 2\<close> on the store of
  the example, \<open>main\<close> looks up and prints the bucket of that date alone.
\<close>

theorem date_selection_drops_buckets:
  "main_filters offline (noFilters\<lparr>jsonOut := True, date := ''Jan 2''\<rparr>) exampleStore startWorld =
     (Inr (),
      \<lparr>net = 1, trace =
         [Request ''10.0.0.2'', LogLocateError ''10.0.0.2'' ''timeout'',
          Stdout (PrintlnJSON
            [\<lparr>Date = ''Jan 2'', Entries =
               [\<lparr>IP = ''10.0.0.2'', Location = zeroLocation, Count = 1,
                 Users = [''admin'']\<rparr>]\<rparr>])]\<rparr>) \<and>
   map Date exampleStore = [''Jan 1'', ''Jan 2''] \<and>
   map Date
     [\<lparr>Date = ''Jan 2'', Entries =
        [\<lparr>IP = ''10.0.0.2'', Location = zeroLocation, Count = 1, Users = [''admin'']\<rparr>]\<rparr>] \<noteq>
   map Date exampleStore"
  by (simp add: main_filters_def filterAndPrint_def jsonPrint_def run_defs offline_def
      noFilters_def exampleStore_def startWorld_def)


lemma applyEntries_resolveAll:
  "applyEntries (locateEntry env) es w =
     (case resolveAll env (net w) es of
        (es', evs, n') \<Rightarrow> (Inr es', w\<lparr>net := n', trace := trace w @ evs\<rparr>))"
proof (induction es arbitrary: w)
  case Nil
  show ?case by (simp add: ret_def)
next
  case (Cons ae rest)
  obtain ans n1 where a: "ipapi env (net w) (IP ae) = (ans, n1)"
    by (cases "ipapi env (net w) (IP ae)")
  show ?case
  proof (cases ans)
    case (Inl err)
    let ?w1 = "w\<lparr>net := n1, trace := trace w @ [Request (IP ae), LogLocateError (IP ae) err]\<rparr>"
    have 1: "locateEntry env ae w = (Inr (ae\<lparr>Location := zeroLocation\<rparr>), ?w1)"
      using a Inl by (simp add: locateEntry_run)
    show ?thesis
      using a Inl
      by (simp add: bnd_def 1 Cons.IH [of ?w1] ret_def split: prod.splits)
  next
    case (Inr loc)
    let ?w1 = "w\<lparr>net := n1, trace := trace w @ [Request (IP ae)]\<rparr>"
    have 1: "locateEntry env ae w = (Inr (ae\<lparr>Location := loc\<rparr>), ?w1)"
      using a Inr by (simp add: locateEntry_run)
    show ?thesis
      using a Inr
      by (simp add: bnd_def 1 Cons.IH [of ?w1] ret_def split: prod.splits)
  qed
qed

lemma locateStage_resolveAll:
  "locateStage env dae w =
     (case resolveAll env (net w) (Entries dae) of
        (es', evs, n') \<Rightarrow>
          (Inr (dae\<lparr>Entries := es'\<rparr>), w\<lparr>net := n', trace := trace w @ evs\<rparr>))"
  by (simp add: locateStage_def apply_dae_def bnd_def applyEntries_resolveAll ret_def
      split: prod.splits)

lemma filterDay_resolveAll:
  "locale_flag cfg = [] \<Longrightarrow>
   filterDay env cfg dae w =
     (case resolveAll env (net w) (survivors cfg dae) of
        (es', evs, n') \<Rightarrow>
          (Inr (dae\<lparr>Entries := es'\<rparr>), w\<lparr>net := n', trace := trace w @ evs\<rparr>))"
  by (simp add: filterDay_eq bnd_def locateStage_resolveAll localeStage_off split: prod.splits)

lemma applyEntryFilters_resolveStore:
  "locale_flag cfg = [] \<Longrightarrow>
   applyEntryFilters env cfg s w =
     (case resolveStore env cfg (net w) s of
        (s', evs, n') \<Rightarrow> (Inr s', w\<lparr>net := n', trace := trace w @ evs\<rparr>))"
proof (induction s arbitrary: w)
  case Nil
  show ?case by (simp add: ret_def)
next
  case (Cons dae rest)
  obtain es' evs1 n1 where r: "resolveAll env (net w) (survivors cfg dae) = (es', evs1, n1)"
    by (cases "resolveAll env (net w) (survivors cfg dae)") auto
  let ?w1 = "w\<lparr>net := n1, trace := trace w @ evs1\<rparr>"
  have 1: "filterDay env cfg dae w = (Inr (dae\<lparr>Entries := es'\<rparr>), ?w1)"
    by (simp add: filterDay_resolveAll [OF Cons.prems] r)
  show ?case
    by (simp add: bnd_def 1 Cons.IH [OF Cons.prems, of ?w1] r ret_def split: prod.splits)
qed

lemma resolveAll_append:
  "resolveAll env n (xs @ ys) =
     (case resolveAll env n xs of
        (xs', evs1, n1) \<Rightarrow>
          (case resolveAll env n1 ys of
             (ys', evs2, n2) \<Rightarrow> (xs' @ ys', evs1 @ evs2, n2)))"
  by (induction xs arbitrary: n) (simp_all split: prod.splits sum.splits)

lemma resolveStore_append:
  "resolveStore env cfg n (xs @ ys) =
     (case resolveStore env cfg n xs of
        (xs', evs1, n1) \<Rightarrow>
          (case resolveStore env cfg n1 ys of
             (ys', evs2, n2) \<Rightarrow> (xs' @ ys', evs1 @ evs2, n2)))"
  by (induction xs arbitrary: n) (simp_all split: prod.splits)

lemma resolveAll_kept:
  "resolveAll env n es = (es', evs, n') \<Longrightarrow> map eraseLocation es' = map eraseLocation es"
  by (induction es arbitrary: n es' evs n')
    (auto simp add: eraseLocation_def split: prod.splits sum.splits)


lemma resolveStore_Dates:
  "resolveStore env cfg n s = (s', evs, n') \<Longrightarrow> map Date s' = map Date s"
  by (induction s arbitrary: n s' evs n') (auto split: prod.splits)

text \<open>
  C8. When the lookup for an entry fails, the failure is logged, the entry is returned
  with the zero-value location, and the run goes on. For the closure: a failing lookup
  gives the request and the log line in the trace and the entry with the zero-value
  location. For the geolocation step: it returns what \<open>resolveAll\<close> describes. For the
  run without a location filter: whenever the lookup of a surviving entry fails when
  its turn comes, \<open>applyEntryFilters\<close> returns normally, the returned store holds that
  entry at its place with the zero-value location, the trace holds its request followed
  by its log line at their place, and the buckets and entries before and after it are
  all there. No survivor is ever dropped by the lookups.
\<close>

theorem lookup_failure_keeps_entry:
  "(ipapi env (net w) (IP ae) = (Inl err, n') \<longrightarrow>
      locateEntry env ae w =
        (Inr (ae\<lparr>Location := zeroLocation\<rparr>),
         w\<lparr>net := n', trace := trace w @ [Request (IP ae), LogLocateError (IP ae) err]\<rparr>)) \<and>
   locateStage env dae w =
     (case resolveAll env (net w) (Entries dae) of
        (es', evs, n') \<Rightarrow>
          (Inr (dae\<lparr>Entries := es'\<rparr>), w\<lparr>net := n', trace := trace w @ evs\<rparr>)) \<and>
   (locale_flag cfg = [] \<and> s = before @ dae # after \<and> survivors cfg dae = pre @ ae # post \<and>
    resolveStore env cfg (net w) before = (before', evsa, na) \<and>
    resolveAll env na pre = (pre', evsb, nb) \<and>
    ipapi env nb (IP ae) = (Inl err, nc) \<and>
    resolveAll env nc post = (post', evsc, nd) \<and>
    resolveStore env cfg nd after = (after', evsd, ne) \<longrightarrow>
      applyEntryFilters env cfg s w =
        (Inr (before' @ dae\<lparr>Entries := pre' @ ae\<lparr>Location := zeroLocation\<rparr> # post'\<rparr> # after'),
         w\<lparr>net := ne, trace := trace w @ evsa @ evsb @
            [Request (IP ae), LogLocateError (IP ae) err] @ evsc @ evsd\<rparr>) \<and>
      map Date before' = map Date before \<and>
      map eraseLocation pre' = map eraseLocation pre \<and>
      map eraseLocation post' = map eraseLocation post \<and>
      map Date after' = map Date after) \<and>
   (locale_flag cfg = [] \<longrightarrow>
      (\<exists>s' w'. applyEntryFilters env cfg s w = (Inr s', w') \<and>
         map (\<lambda>dae. map eraseLocation (Entries dae)) s' =
         map (\<lambda>dae. map eraseLocation (survivors cfg dae)) s))"
proof (intro conjI impI)
  assume "ipapi env (net w) (IP ae) = (Inl err, n')"
  then show "locateEntry env ae w =
      (Inr (ae\<lparr>Location := zeroLocation\<rparr>),
       w\<lparr>net := n', trace := trace w @ [Request (IP ae), LogLocateError (IP ae) err]\<rparr>)"
    by (simp add: locateEntry_run)
next
  show "locateStage env dae w =
     (case resolveAll env (net w) (Entries dae) of
        (es', evs, n') \<Rightarrow>
          (Inr (dae\<lparr>Entries := es'\<rparr>), w\<lparr>net := n', trace := trace w @ evs\<rparr>))"
    by (rule locateStage_resolveAll)
next
  assume a: "locale_flag cfg = [] \<and> s = before @ dae # after \<and>
    survivors cfg dae = pre @ ae # post \<and>
    resolveStore env cfg (net w) before = (before', evsa, na) \<and>
    resolveAll env na pre = (pre', evsb, nb) \<and>
    ipapi env nb (IP ae) = (Inl err, nc) \<and>
    resolveAll env nc post = (post', evsc, nd) \<and>
    resolveStore env cfg nd after = (after', evsd, ne)"
  then have "resolveAll env na (survivors cfg dae) =
      (pre' @ ae\<lparr>Location := zeroLocation\<rparr> # post',
       evsb @ Request (IP ae) # LogLocateError (IP ae) err # evsc, nd)"
    by (simp add: resolveAll_append)
  with a have "resolveStore env cfg (net w) s =
      (before' @ dae\<lparr>Entries := pre' @ ae\<lparr>Location := zeroLocation\<rparr> # post'\<rparr> # after',
       evsa @ evsb @ [Request (IP ae), LogLocateError (IP ae) err] @ evsc @ evsd, ne)"
    by (simp add: resolveStore_append)
  with a show "applyEntryFilters env cfg s w =
      (Inr (before' @ dae\<lparr>Entries := pre' @ ae\<lparr>Location := zeroLocation\<rparr> # post'\<rparr> # after'),
       w\<lparr>net := ne, trace := trace w @ evsa @ evsb @
          [Request (IP ae), LogLocateError (IP ae) err] @ evsc @ evsd\<rparr>)"
    by (simp add: applyEntryFilters_resolveStore)
  from a show "map Date before' = map Date before"
    by (blast intro: resolveStore_Dates)
  from a show "map eraseLocation pre' = map eraseLocation pre"
    by (blast intro: resolveAll_kept)
  from a show "map eraseLocation post' = map eraseLocation post"
    by (blast intro: resolveAll_kept)
  from a show "map Date after' = map Date after"
    by (blast intro: resolveStore_Dates)
next
  assume "locale_flag cfg = []"
  then show "\<exists>s' w'. applyEntryFilters env cfg s w = (Inr s', w') \<and>
      map (\<lambda>dae. map eraseLocation (Entries dae)) s' =
      map (\<lambda>dae. map eraseLocation (survivors cfg dae)) s"
    using applyEntryFilters_ok [of cfg env s w] by blast
qed

theorem lookup_failure_keeps_entry_witness:
  "locateEntry flaky
      \<lparr>IP = ''10.0.0.2'', Location = amsterdam, Count = 1, Users = [''admin'']\<rparr> startWorld =
     (Inr \<lparr>IP = ''10.0.0.2'', Location = zeroLocation, Count = 1, Users = [''admin'']\<rparr>,
      \<lparr>net = 1, trace = [Request ''10.0.0.2'', LogLocateError ''10.0.0.2'' ''timeout'']\<rparr>) \<and>
   applyEntryFilters flaky noFilters staleStore startWorld =
     (Inr [\<lparr>Date = ''Jan 1'', Entries =
             [\<lparr>IP = ''10.0.0.1'', Location = amsterdam, Count = 2,
               Users = [''admin'', ''root'']\<rparr>]\<rparr>,
           \<lparr>Date = ''Jan 2'', Entries =
             [\<lparr>IP = ''10.0.0.2'', Location = zeroLocation, Count = 1, Users = [''admin'']\<rparr>]\<rparr>],
      \<lparr>net = 2, trace =
         [Request ''10.0.0.1'', Request ''10.0.0.2'',
          LogLocateError ''10.0.0.2'' ''timeout'']\<rparr>)"
proof -
  let ?ae = "\<lparr>IP = ''10.0.0.2'', Location = amsterdam, Count = 1, Users = [''admin'']\<rparr>"
  let ?dae = "\<lparr>Date = ''Jan 2'', Entries = [?ae]\<rparr>"
  let ?before =
    "[\<lparr>Date = ''Jan 1'', Entries =
        [\<lparr>IP = ''10.0.0.1'', Location = zeroLocation, Count = 2,
          Users = [''admin'', ''root'']\<rparr>]\<rparr>]"
  let ?before' =
    "[\<lparr>Date = ''Jan 1'', Entries =
        [\<lparr>IP = ''10.0.0.1'', Location = amsterdam, Count = 2,
          Users = [''admin'', ''root'']\<rparr>]\<rparr>]"
  note t = lookup_failure_keeps_entry [where env = flaky and w = startWorld
      and err = "''timeout''" and n' = 1 and cfg = noFilters and s = staleStore and ae = ?ae
      and before = ?before and dae = ?dae and after = "[]" and pre = "[]" and post = "[]"
      and before' = ?before' and evsa = "[Request ''10.0.0.1'']" and na = 1 and pre' = "[]"
      and evsb = "[]" and nb = 1 and nc = 2 and post' = "[]" and evsc = "[]" and nd = 2
      and after' = "[]" and evsd = "[]" and ne = 2]
  have a: "ipapi flaky (net startWorld) (IP ?ae) = (Inl ''timeout'', 1)"
    by (simp add: flaky_def startWorld_def)
  have b: "locale_flag noFilters = [] \<and> staleStore = ?before @ ?dae # [] \<and>
      survivors noFilters ?dae = [] @ ?ae # [] \<and>
      resolveStore flaky noFilters (net startWorld) ?before = (?before', [Request ''10.0.0.1''], 1) \<and>
      resolveAll flaky 1 [] = ([], [], 1) \<and>
      ipapi flaky 1 (IP ?ae) = (Inl ''timeout'', 2) \<and>
      resolveAll flaky 2 [] = ([], [], 2) \<and>
      resolveStore flaky noFilters 2 [] = ([], [], 2)"
    by (simp add: flaky_def startWorld_def noFilters_def staleStore_def survivors_def keeps_def)
  have 1: "locateEntry flaky ?ae startWorld =
      (Inr (?ae\<lparr>Location := zeroLocation\<rparr>),
       startWorld\<lparr>net := 1, trace := trace startWorld @
         [Request (IP ?ae), LogLocateError (IP ?ae) ''timeout'']\<rparr>)"
    by (rule t [THEN conjunct1, THEN mp, OF a])
  have 2: "applyEntryFilters flaky noFilters staleStore startWorld =
      (Inr (?before' @ ?dae\<lparr>Entries := [] @ ?ae\<lparr>Location := zeroLocation\<rparr> # []\<rparr> # []),
       startWorld\<lparr>net := 2, trace := trace startWorld @ [Request ''10.0.0.1''] @ [] @
         [Request (IP ?ae), LogLocateError (IP ?ae) ''timeout''] @ [] @ []\<rparr>)"
    by (rule t [THEN conjunct2, THEN conjunct2, THEN conjunct1, THEN mp, OF b, THEN conjunct1])
  from 1 2 show ?thesis
    by (simp add: startWorld_def)
qed

text \<open>
  C10. With a location pattern that does not compile, \<open>applyEntryFilters\<close> panics as
  soon as a bucket has a survivor, on the first call of \<^verbatim>\<open>regexp.MustCompile\<close>, and
  the panic ends the program before anything is printed; when no
  bucket has a survivor the pattern is never compiled and the run returns the emptied
  buckets. A pattern that compiles is compiled once per surviving entry.
\<close>

theorem invalid_pattern_panics_with_survivors:
  "(locale_flag cfg \<noteq> [] \<and> regexpCompile env (locale_flag cfg) = None \<and>
    (\<exists>dae \<in> set s. survivors cfg dae \<noteq> []) \<longrightarrow>
      (\<exists>w'. applyEntryFilters env cfg s w = (Inl (RegexpPanic (locale_flag cfg)), w') \<and>
         filterAndPrint env cfg s w = (Inl (RegexpPanic (locale_flag cfg)), w') \<and>
         compilesOf (trace w') = compilesOf (trace w) @ [locale_flag cfg])) \<and>
   (locale_flag cfg \<noteq> [] \<and> regexpCompile env (locale_flag cfg) = None \<and>
    (\<forall>dae \<in> set s. survivors cfg dae = []) \<longrightarrow>
      (\<exists>w'. applyEntryFilters env cfg s w = (Inr (map (\<lambda>dae. dae\<lparr>Entries := []\<rparr>) s), w') \<and>
         compilesOf (trace w') = compilesOf (trace w))) \<and>
   (locale_flag cfg \<noteq> [] \<and> regexpCompile env (locale_flag cfg) \<noteq> None \<longrightarrow>
      (\<exists>s' w'. applyEntryFilters env cfg s w = (Inr s', w') \<and>
         compilesOf (trace w') = compilesOf (trace w) @
           replicate (length (concat (map (survivors cfg) s))) (locale_flag cfg)))"
proof (intro conjI impI)
  assume "locale_flag cfg \<noteq> [] \<and> regexpCompile env (locale_flag cfg) = None \<and>
    (\<exists>dae \<in> set s. survivors cfg dae \<noteq> [])"
  then obtain w' where
    r: "applyEntryFilters env cfg s w = (Inl (RegexpPanic (locale_flag cfg)), w')"
       "compilesOf (trace w') = compilesOf (trace w) @ [locale_flag cfg]"
    using applyEntryFilters_invalid_panic [of cfg env s w] by blast
  have "filterAndPrint env cfg s w = (Inl (RegexpPanic (locale_flag cfg)), w')"
    by (simp add: filterAndPrint_def bnd_def r(1))
  with r show "\<exists>w'. applyEntryFilters env cfg s w = (Inl (RegexpPanic (locale_flag cfg)), w') \<and>
      filterAndPrint env cfg s w = (Inl (RegexpPanic (locale_flag cfg)), w') \<and>
      compilesOf (trace w') = compilesOf (trace w) @ [locale_flag cfg]"
    by blast
next
  assume "locale_flag cfg \<noteq> [] \<and> regexpCompile env (locale_flag cfg) = None \<and>
    (\<forall>dae \<in> set s. survivors cfg dae = [])"
  then show "\<exists>w'. applyEntryFilters env cfg s w =
        (Inr (map (\<lambda>dae. dae\<lparr>Entries := []\<rparr>) s), w') \<and>
      compilesOf (trace w') = compilesOf (trace w)"
    using applyEntryFilters_invalid_empty [of cfg env s w] by blast
next
  assume a: "locale_flag cfg \<noteq> [] \<and> regexpCompile env (locale_flag cfg) \<noteq> None"
  then have "locale_flag cfg = [] \<or> regexpCompile env (locale_flag cfg) \<noteq> None"
    by simp
  from applyEntryFilters_ok [OF this, of s w] a
  show "\<exists>s' w'. applyEntryFilters env cfg s w = (Inr s', w') \<and>
      compilesOf (trace w') = compilesOf (trace w) @
        replicate (length (concat (map (survivors cfg) s))) (locale_flag cfg)"
    by auto
qed

theorem invalid_pattern_panics_with_survivors_witness:
  "(\<exists>w'. applyEntryFilters offline badPattern exampleStore startWorld =
       (Inl (RegexpPanic ''(''), w') \<and>
       filterAndPrint offline badPattern exampleStore startWorld =
       (Inl (RegexpPanic ''(''), w') \<and> compilesOf (trace w') = [''('']) \<and>
   (\<exists>w'. applyEntryFilters offline (badPattern\<lparr>threshold := 5\<rparr>) exampleStore startWorld =
       (Inr [\<lparr>Date = ''Jan 1'', Entries = []\<rparr>, \<lparr>Date = ''Jan 2'', Entries = []\<rparr>], w') \<and>
       compilesOf (trace w') = []) \<and>
   (\<exists>s' w'. applyEntryFilters offline (noFilters\<lparr>locale_flag := ''.*''\<rparr>) exampleStore startWorld =
       (Inr s', w') \<and> compilesOf (trace w') = [''.*'', ''.*''])"
  using invalid_pattern_panics_with_survivors
      [where env = offline and cfg = badPattern and s = exampleStore and w = startWorld]
    invalid_pattern_panics_with_survivors
      [where env = offline and cfg = "badPattern\<lparr>threshold := 5\<rparr>" and s = exampleStore
        and w = startWorld]
    invalid_pattern_panics_with_survivors
      [where env = offline and cfg = "noFilters\<lparr>locale_flag := ''.*''\<rparr>" and s = exampleStore
        and w = startWorld]
  by (simp add: offline_def startWorld_def badPattern_def noFilters_def exampleStore_def
      survivors_def keeps_def word_sle_eq word_sless_alt numeral_2_eq_2
      del: applyEntryFilters.simps)

section \<open>The date filter and the early exit\<close>

lemma applyDateFilter_filter:
  "applyDateFilter cfg s =
     (case filter (\<lambda>day. Date day = date cfg) s of [] \<Rightarrow> None | day # _ \<Rightarrow> Some [day])"
  by (induction s) simp_all

lemma applyDateFilter_None: "applyDateFilter cfg s = None \<longleftrightarrow> date cfg \<notin> set (map Date s)"
  by (induction s) auto

lemma applyDateFilter_distinct:
  "distinct (map Date s) \<Longrightarrow> date cfg \<in> set (map Date s) \<Longrightarrow>
   applyDateFilter cfg s = Some (filter (\<lambda>day. Date day = date cfg) s)"
proof (induction s)
  case Nil
  then show ?case by simp
next
  case (Cons day rest)
  show ?case
  proof (cases "Date day = date cfg")
    case True
    with Cons.prems(1) have "date cfg \<notin> Date ` set rest" by auto
    then have "filter (\<lambda>day. Date day = date cfg) rest = []"
      by (force simp add: filter_empty_conv)
    with True show ?thesis by simp
  next
    case False
    with Cons show ?thesis by auto
  qed
qed

text \<open>
  C2. \<open>applyDateFilter\<close> returns the first bucket whose \<open>Date\<close> is the filter string,
  compared as strings, alone in a fresh slice; where the dates of the store are distinct
  that is exactly the buckets with that date. When no bucket has the date it returns nil,
  and \<open>main\<close> then logs that no date matched and returns: no request, no compilation
  and no output happens, and no entry filter runs. When a bucket matches, \<open>main\<close>
  goes on with that bucket alone.
\<close>

theorem date_filter_keeps_match_or_exits:
  "applyDateFilter cfg s =
     (case filter (\<lambda>day. Date day = date cfg) s of [] \<Rightarrow> None | day # _ \<Rightarrow> Some [day]) \<and>
   (distinct (map Date s) \<and> date cfg \<in> set (map Date s) \<longrightarrow>
      applyDateFilter cfg s = Some (filter (\<lambda>day. Date day = date cfg) s)) \<and>
   (date cfg \<noteq> [] \<and> date cfg \<notin> set (map Date s) \<longrightarrow>
      applyDateFilter cfg s = None \<and>
      main_filters env cfg s w = (Inr (), w\<lparr>trace := trace w @ [LogNoDateMatch]\<rparr>)) \<and>
   (date cfg \<noteq> [] \<and> applyDateFilter cfg s = Some kept \<longrightarrow>
      main_filters env cfg s w = filterAndPrint env cfg kept w)"
proof (intro conjI impI)
  show "applyDateFilter cfg s =
     (case filter (\<lambda>day. Date day = date cfg) s of [] \<Rightarrow> None | day # _ \<Rightarrow> Some [day])"
    by (rule applyDateFilter_filter)
next
  assume "distinct (map Date s) \<and> date cfg \<in> set (map Date s)"
  then show "applyDateFilter cfg s = Some (filter (\<lambda>day. Date day = date cfg) s)"
    by (simp add: applyDateFilter_distinct)
next
  assume a: "date cfg \<noteq> [] \<and> date cfg \<notin> set (map Date s)"
  then show none: "applyDateFilter cfg s = None"
    by (simp add: applyDateFilter_None)
  with a show "main_filters env cfg s w = (Inr (), w\<lparr>trace := trace w @ [LogNoDateMatch]\<rparr>)"
    by (simp add: main_filters_def emits_def)
next
  assume "date cfg \<noteq> [] \<and> applyDateFilter cfg s = Some kept"
  then show "main_filters env cfg s w = filterAndPrint env cfg kept w"
    by (simp add: main_filters_def)
qed

theorem date_filter_keeps_match_or_exits_witness:
  "applyDateFilter (noFilters\<lparr>date := ''Jan 2''\<rparr>) exampleStore =
     Some [\<lparr>Date = ''Jan 2'', Entries =
         [\<lparr>IP = ''10.0.0.2'', Location = zeroLocation, Count = 1, Users = [''admin'']\<rparr>]\<rparr>] \<and>
   main_filters offline (noFilters\<lparr>date := ''Jan 2''\<rparr>) exampleStore startWorld =
     filterAndPrint offline (noFilters\<lparr>date := ''Jan 2''\<rparr>)
       [\<lparr>Date = ''Jan 2'', Entries =
         [\<lparr>IP = ''10.0.0.2'', Location = zeroLocation, Count = 1, Users = [''admin'']\<rparr>]\<rparr>]
       startWorld \<and>
   applyDateFilter (noFilters\<lparr>date := ''Jan 3''\<rparr>) exampleStore = None \<and>
   main_filters offline (noFilters\<lparr>date := ''Jan 3''\<rparr>) exampleStore startWorld =
     (Inr (), \<lparr>net = 0, trace = [LogNoDateMatch]\<rparr>)"
  using date_filter_keeps_match_or_exits [where cfg = "noFilters\<lparr>date := ''Jan 2''\<rparr>"
      and s = exampleStore and env = offline and w = startWorld and kept =
      "[\<lparr>Date = ''Jan 2'', Entries =
         [\<lparr>IP = ''10.0.0.2'', Location = zeroLocation, Count = 1, Users = [''admin'']\<rparr>]\<rparr>]"]
    date_filter_keeps_match_or_exits [where cfg = "noFilters\<lparr>date := ''Jan 3''\<rparr>"
      and s = exampleStore and env = offline and w = startWorld]
  by (simp add: noFilters_def exampleStore_def startWorld_def)

section \<open>The text renderer\<close>

lemma print_concat:
  "printEntries thr fmtF es =
     concat (map (printEntry fmtF) (filter (\<lambda>ae. word_sle thr (Count ae)) es))"
  by (induction es) simp_all

lemma printEntry_tokens:
  "printEntry fmtF ae =
     [ColorSet [FgBlue, Bold], Println (''IP: '' @ IP ae), ColorUnset,
            ColorSet [FgYellow], Print ''Location: '', ColorUnset,
            Println (City (Location ae) @ '', '' @ Region (Location ae) @ '', '' @
              Country (Location ae) @ '' ('' @ fmtF (Lat (Location ae)) @ '', '' @
              fmtF (Long (Location ae)) @ '')''),
            ColorSet [FgYellow], Print ''Attempts: '', ColorUnset,
            PrintlnInt (Count ae),
            ColorSet [FgYellow], Print ''Usernames: '', ColorUnset,
            Println (strings_Join (Users ae) '', '')]"
  by (simp add: printEntry_def composeLocationString_def)

text \<open>
  C9. \<open>print\<close> writes, for each bucket in store order, the date header, then for every
  entry whose \<open>Count\<close> is at least the threshold its block (the IP line, the location
  line, the attempts line and the usernames line, each with its colours), then an empty
  line: an entry below the threshold writes nothing, also when the count block of the
  pipeline was skipped (threshold not above 0) and the entry is still in the store, and
  the header and the empty line are written for a bucket none of whose entries is
  printed. In text mode \<open>main\<close> prints the filtered store with the global threshold.
\<close>

theorem print_applies_threshold:
  "print thr fmtF s =
     concat (map (\<lambda>dae.
       [ColorSet [FgGreen, Bold], Println (''Date: '' @ Date dae), ColorUnset] @
       concat (map (\<lambda>ae.
           [ColorSet [FgBlue, Bold], Println (''IP: '' @ IP ae), ColorUnset,
            ColorSet [FgYellow], Print ''Location: '', ColorUnset,
            Println (City (Location ae) @ '', '' @ Region (Location ae) @ '', '' @
              Country (Location ae) @ '' ('' @ fmtF (Lat (Location ae)) @ '', '' @
              fmtF (Long (Location ae)) @ '')''),
            ColorSet [FgYellow], Print ''Attempts: '', ColorUnset,
            PrintlnInt (Count ae),
            ColorSet [FgYellow], Print ''Usernames: '', ColorUnset,
            Println (strings_Join (Users ae) '', '')])
         (filter (\<lambda>ae. word_sle thr (Count ae)) (Entries dae))) @
       [Println []]) s) \<and>
   (\<not> word_sle thr (Count ae) \<longrightarrow>
      printEntries thr fmtF (ae # rest) = printEntries thr fmtF rest) \<and>
   (\<not> word_sless 0 (threshold cfg) \<longrightarrow> countStage cfg dae w = (Inr dae, w)) \<and>
   (\<not> jsonOut cfg \<and> applyEntryFilters env cfg s w = (Inr s', w') \<longrightarrow>
      filterAndPrint env cfg s w =
        (Inr (), w'\<lparr>trace := trace w' @
           map Stdout (print (threshold cfg) (formatFloat env) s')\<rparr>))"
proof (intro conjI impI)
  show "print thr fmtF s =
     concat (map (\<lambda>dae.
       [ColorSet [FgGreen, Bold], Println (''Date: '' @ Date dae), ColorUnset] @
       concat (map (\<lambda>ae.
           [ColorSet [FgBlue, Bold], Println (''IP: '' @ IP ae), ColorUnset,
            ColorSet [FgYellow], Print ''Location: '', ColorUnset,
            Println (City (Location ae) @ '', '' @ Region (Location ae) @ '', '' @
              Country (Location ae) @ '' ('' @ fmtF (Lat (Location ae)) @ '', '' @
              fmtF (Long (Location ae)) @ '')''),
            ColorSet [FgYellow], Print ''Attempts: '', ColorUnset,
            PrintlnInt (Count ae),
            ColorSet [FgYellow], Print ''Usernames: '', ColorUnset,
            Println (strings_Join (Users ae) '', '')])
         (filter (\<lambda>ae. word_sle thr (Count ae)) (Entries dae))) @
       [Println []]) s)"
    by (induction s) (simp_all add: print_concat printEntry_tokens [abs_def])
next
  assume "\<not> word_sle thr (Count ae)"
  then show "printEntries thr fmtF (ae # rest) = printEntries thr fmtF rest"
    by simp
next
  assume "\<not> word_sless 0 (threshold cfg)"
  then show "countStage cfg dae w = (Inr dae, w)"
    by (simp add: countStage_def ret_def)
next
  assume "\<not> jsonOut cfg \<and> applyEntryFilters env cfg s w = (Inr s', w')"
  then show "filterAndPrint env cfg s w =
      (Inr (), w'\<lparr>trace := trace w' @ map Stdout (print (threshold cfg) (formatFloat env) s')\<rparr>)"
    by (simp add: filterAndPrint_def bnd_def emits_def)
qed

lemma example_flaky_atLeastTwo:
  "applyEntryFilters flaky atLeastTwo exampleStore startWorld =
     (Inr [\<lparr>Date = ''Jan 1'', Entries =
             [\<lparr>IP = ''10.0.0.1'', Location = amsterdam, Count = 2,
               Users = [''admin'', ''root'']\<rparr>]\<rparr>,
           \<lparr>Date = ''Jan 2'', Entries = []\<rparr>],
      \<lparr>net = 1, trace = [Request ''10.0.0.1'']\<rparr>)"
  by (simp add: run_defs flaky_def atLeastTwo_def noFilters_def exampleStore_def startWorld_def)

theorem print_applies_threshold_witness:
  "print 2 (formatFloat flaky)
     [\<lparr>Date = ''Jan 1'', Entries =
         [\<lparr>IP = ''10.0.0.1'', Location = amsterdam, Count = 2, Users = [''admin'', ''root'']\<rparr>]\<rparr>,
      \<lparr>Date = ''Jan 2'', Entries =
         [\<lparr>IP = ''10.0.0.2'', Location = zeroLocation, Count = 1, Users = [''admin'']\<rparr>]\<rparr>] =
     [ColorSet [FgGreen, Bold], Println ''Date: Jan 1'', ColorUnset,
      ColorSet [FgBlue, Bold], Println ''IP: 10.0.0.1'', ColorUnset,
      ColorSet [FgYellow], Print ''Location: '', ColorUnset,
      Println ''Amsterdam, North Holland, Netherlands (52.370000, 4.890000)'',
      ColorSet [FgYellow], Print ''Attempts: '', ColorUnset,
      PrintlnInt 2,
      ColorSet [FgYellow], Print ''Usernames: '', ColorUnset,
      Println ''admin, root'',
      Println [],
      ColorSet [FgGreen, Bold], Println ''Date: Jan 2'', ColorUnset,
      Println []] \<and>
   printEntries 0 (formatFloat flaky)
     [\<lparr>IP = ''10.0.0.3'', Location = zeroLocation, Count = - 1, Users = [''guest'']\<rparr>] = [] \<and>
   countStage noFilters
     \<lparr>Date = ''Jan 3'', Entries =
        [\<lparr>IP = ''10.0.0.3'', Location = zeroLocation, Count = - 1, Users = [''guest'']\<rparr>]\<rparr>
     startWorld =
     (Inr \<lparr>Date = ''Jan 3'', Entries =
        [\<lparr>IP = ''10.0.0.3'', Location = zeroLocation, Count = - 1, Users = [''guest'']\<rparr>]\<rparr>,
      startWorld) \<and>
   filterAndPrint flaky atLeastTwo exampleStore startWorld =
     (Inr (),
      \<lparr>net = 1, trace =
         [Request ''10.0.0.1'',
          Stdout (ColorSet [FgGreen, Bold]), Stdout (Println ''Date: Jan 1''), Stdout ColorUnset,
          Stdout (ColorSet [FgBlue, Bold]), Stdout (Println ''IP: 10.0.0.1''), Stdout ColorUnset,
          Stdout (ColorSet [FgYellow]), Stdout (Print ''Location: ''), Stdout ColorUnset,
          Stdout (Println ''Amsterdam, North Holland, Netherlands (52.370000, 4.890000)''),
          Stdout (ColorSet [FgYellow]), Stdout (Print ''Attempts: ''), Stdout ColorUnset,
          Stdout (PrintlnInt 2),
          Stdout (ColorSet [FgYellow]), Stdout (Print ''Usernames: ''), Stdout ColorUnset,
          Stdout (Println ''admin, root''),
          Stdout (Println []),
          Stdout (ColorSet [FgGreen, Bold]), Stdout (Println ''Date: Jan 2''), Stdout ColorUnset,
          Stdout (Println [])]\<rparr>)"
proof -
  let ?ghost = "\<lparr>IP = ''10.0.0.3'', Location = zeroLocation, Count = - 1, Users = [''guest'']\<rparr>"
  let ?printed =
    "[\<lparr>Date = ''Jan 1'', Entries =
        [\<lparr>IP = ''10.0.0.1'', Location = amsterdam, Count = 2, Users = [''admin'', ''root'']\<rparr>]\<rparr>,
      \<lparr>Date = ''Jan 2'', Entries = []\<rparr>]"
  let ?wb = "\<lparr>net = 1, trace = [Request ''10.0.0.1'']\<rparr> :: nat world"
  note t = print_applies_threshold [where thr = 2 and fmtF = "formatFloat flaky"]
  note u = print_applies_threshold [where thr = 0 and fmtF = "formatFloat flaky"
      and ae = ?ghost and rest = "[]" and cfg = noFilters and w = startWorld
      and dae = "\<lparr>Date = ''Jan 3'', Entries = [?ghost]\<rparr>"]
  note v = print_applies_threshold [where cfg = atLeastTwo and env = flaky and s = exampleStore
      and w = startWorld and s' = ?printed and w' = ?wb]
  have 1: "print 2 (formatFloat flaky)
     [\<lparr>Date = ''Jan 1'', Entries =
         [\<lparr>IP = ''10.0.0.1'', Location = amsterdam, Count = 2, Users = [''admin'', ''root'']\<rparr>]\<rparr>,
      \<lparr>Date = ''Jan 2'', Entries =
         [\<lparr>IP = ''10.0.0.2'', Location = zeroLocation, Count = 1, Users = [''admin'']\<rparr>]\<rparr>] =
     [ColorSet [FgGreen, Bold], Println ''Date: Jan 1'', ColorUnset,
      ColorSet [FgBlue, Bold], Println ''IP: 10.0.0.1'', ColorUnset,
      ColorSet [FgYellow], Print ''Location: '', ColorUnset,
      Println ''Amsterdam, North Holland, Netherlands (52.370000, 4.890000)'',
      ColorSet [FgYellow], Print ''Attempts: '', ColorUnset,
      PrintlnInt 2,
      ColorSet [FgYellow], Print ''Usernames: '', ColorUnset,
      Println ''admin, root'',
      Println [],
      ColorSet [FgGreen, Bold], Println ''Date: Jan 2'', ColorUnset,
      Println []]"
    by (simp only: t [THEN conjunct1])
      (simp add: flaky_def amsterdam_def word_sle_eq)
  have g: "\<not> word_sle 0 (Count ?ghost)"
    by (simp add: word_sle_eq)
  have 2: "printEntries 0 (formatFloat flaky) [?ghost] = []"
    using u [THEN conjunct2, THEN conjunct1, THEN mp, OF g] by simp
  have z: "\<not> word_sless 0 (threshold noFilters)"
    by (simp add: noFilters_def)
  note 3 = u [THEN conjunct2, THEN conjunct2, THEN conjunct1, THEN mp, OF z]
  have j: "\<not> jsonOut atLeastTwo"
    by (simp add: atLeastTwo_def noFilters_def)
  have r: "\<not> jsonOut atLeastTwo \<and>
      applyEntryFilters flaky atLeastTwo exampleStore startWorld = (Inr ?printed, ?wb)"
    by (rule conjI [OF j example_flaky_atLeastTwo])
  have p: "print 2 (formatFloat flaky) ?printed =
     [ColorSet [FgGreen, Bold], Println ''Date: Jan 1'', ColorUnset,
      ColorSet [FgBlue, Bold], Println ''IP: 10.0.0.1'', ColorUnset,
      ColorSet [FgYellow], Print ''Location: '', ColorUnset,
      Println ''Amsterdam, North Holland, Netherlands (52.370000, 4.890000)'',
      ColorSet [FgYellow], Print ''Attempts: '', ColorUnset,
      PrintlnInt 2,
      ColorSet [FgYellow], Print ''Usernames: '', ColorUnset,
      Println ''admin, root'',
      Println [],
      ColorSet [FgGreen, Bold], Println ''Date: Jan 2'', ColorUnset,
      Println []]"
    by (simp only: t [THEN conjunct1])
      (simp add: flaky_def amsterdam_def word_sle_eq)
  have th: "threshold atLeastTwo = 2"
    by (simp add: atLeastTwo_def noFilters_def)
  from v [THEN conjunct2, THEN conjunct2, THEN conjunct2, THEN mp, OF r]
  have 4: "filterAndPrint flaky atLeastTwo exampleStore startWorld =
      (Inr (), ?wb\<lparr>trace := trace ?wb @ map Stdout (print 2 (formatFloat flaky) ?printed)\<rparr>)"
    by (simp only: th)
  from 1 2 3 4 [unfolded p] show ?thesis
    by simp
qed

section \<open>The parse pass\<close>

lemma existsFrom_ge: "existsFrom k es ip = (idx, True) \<Longrightarrow> k \<le> idx"
  by (induction es arbitrary: k) (auto split: if_splits dest: Suc_leD)

lemma existsFrom_bump:
  "(case existsFrom k es ip of
      (idx, True) \<Rightarrow> es[idx - k := addUser (es ! (idx - k)) name]
    | (idx, False) \<Rightarrow> es @ [newEntry ip name]) = bumpFirst es ip name"
proof (induction es arbitrary: k)
  case Nil
  show ?case by simp
next
  case (Cons ae rest)
  show ?case
  proof (cases "IP ae = ip")
    case True
    then show ?thesis by simp
  next
    case False
    obtain idx found where e: "existsFrom (Suc k) rest ip = (idx, found)"
      by (cases "existsFrom (Suc k) rest ip")
    show ?thesis
    proof (cases found)
      case True
      with e have "Suc k \<le> idx" by (simp add: existsFrom_ge)
      then have d: "idx - k = Suc (idx - Suc k)" by simp
      show ?thesis
        using Cons.IH [where k = "Suc k"] e True False by (simp add: d)
    next
      case False
      then show ?thesis
        using Cons.IH [where k = "Suc k"] e \<open>IP ae \<noteq> ip\<close> by simp
    qed
  qed
qed

lemma recordInBucket_bump:
  "recordInBucket dae ip name = dae\<lparr>Entries := bumpFirst (Entries dae) ip name\<rparr>"
proof -
  have "(case existsFrom 0 (Entries dae) ip of
          (idx, True) \<Rightarrow> (Entries dae)[idx := addUser (Entries dae ! idx) name]
        | (idx, False) \<Rightarrow> Entries dae @ [newEntry ip name]) = bumpFirst (Entries dae) ip name"
    using existsFrom_bump [where k = 0 and es = "Entries dae" and ip = ip and name = name]
    by (auto split: prod.splits bool.splits)
  then show ?thesis
    by (auto simp add: recordInBucket_def exists_def split: prod.splits bool.splits)
qed

lemma bumpFirst_others:
  "filter (\<lambda>ae. IP ae \<noteq> ip) (bumpFirst es ip name) = filter (\<lambda>ae. IP ae \<noteq> ip) es"
  by (induction es) (simp_all add: addUser_IP newEntry_def)

lemma bumpFirst_this:
  "filter (\<lambda>ae. IP ae = ip) (bumpFirst es ip name) =
     (case filter (\<lambda>ae. IP ae = ip) es of
        [] \<Rightarrow> [newEntry ip name]
      | ae # later \<Rightarrow> addUser ae name # later)"
  by (induction es) (simp_all add: addUser_IP newEntry_def)

lemma bumpFirst_IPs:
  "map IP (bumpFirst es ip name) = (if ip \<in> set (map IP es) then map IP es else map IP es @ [ip])"
  by (induction es) (auto simp add: addUser_IP newEntry_def)

lemma bumpFirst_distinct:
  "distinct (map IP es) \<Longrightarrow> distinct (map IP (bumpFirst es ip name))"
  by (simp add: bumpFirst_IPs)

lemma recordAttempt_Dates:
  "map Date (recordAttempt s d ip name) =
     (if d \<in> set (map Date s) then map Date s else map Date s @ [d])"
  by (induction s) (auto simp add: recordInBucket_bump)

lemma recordAttempt_unique: "uniqueIPs s \<Longrightarrow> uniqueIPs (recordAttempt s d ip name)"
proof -
  assume a: "uniqueIPs s"
  have "\<forall>dae \<in> set s. distinct (map IP (Entries dae)) \<Longrightarrow>
      \<forall>dae \<in> set (recordAttempt s d ip name). distinct (map IP (Entries dae))"
    by (induction s) (auto simp add: recordInBucket_bump bumpFirst_distinct newEntry_def)
  with a show ?thesis
    by (simp add: uniqueIPs_def recordAttempt_Dates)
qed


lemma located_Cons:
  "located (dae # rest) = map (Pair (Date dae)) (Entries dae) @ located rest"
  by (simp add: located_def)

lemma located_Nil: "located [] = []"
  by (simp add: located_def)

lemma isFor_bucket:
  "filter (isFor d ip) (map (Pair d') es) =
     (if d' = d then map (Pair d) (filter (\<lambda>ae. IP ae = ip) es) else [])"
  by (simp add: filter_map o_def isFor_def)

lemma not_isFor_bucket:
  "filter (\<lambda>x. \<not> isFor d ip x) (map (Pair d') es) =
     (if d' = d then map (Pair d) (filter (\<lambda>ae. IP ae \<noteq> ip) es) else map (Pair d') es)"
  by (simp add: filter_map o_def isFor_def)

lemma isFor_absent: "d \<notin> set (map Date s) \<Longrightarrow> filter (isFor d ip) (located s) = []"
  by (induction s) (auto simp add: located_Nil located_Cons isFor_bucket)

lemma recordAttempt_others:
  "filter (\<lambda>x. \<not> isFor d ip x) (located (recordAttempt s d ip name)) =
   filter (\<lambda>x. \<not> isFor d ip x) (located s)"
proof (induction s)
  case Nil
  show ?case by (simp add: located_def isFor_def newEntry_def)
next
  case (Cons dae rest)
  then show ?case
    by (simp add: located_Cons not_isFor_bucket recordInBucket_bump bumpFirst_others)
qed

lemma recordAttempt_this:
  "distinct (map Date s) \<Longrightarrow>
   filter (isFor d ip) (located (recordAttempt s d ip name)) =
     (case filter (isFor d ip) (located s) of
        [] \<Rightarrow> [(d, newEntry ip name)]
      | x # later \<Rightarrow> (d, addUser (snd x) name) # later)"
proof (induction s)
  case Nil
  show ?case by (simp add: located_Nil located_Cons isFor_def newEntry_def)
next
  case (Cons dae rest)
  show ?case
  proof (cases "Date dae = d")
    case True
    with Cons.prems have "d \<notin> set (map Date rest)" by auto
    then have "filter (isFor d ip) (located rest) = []"
      by (rule isFor_absent)
    with True show ?thesis
      by (simp add: located_Cons isFor_bucket recordInBucket_bump bumpFirst_this
          split: list.splits)
  next
    case False
    with Cons show ?thesis
      by (simp add: located_Cons isFor_bucket)
  qed
qed

lemma unique_bucket:
  "distinct (map IP es) \<Longrightarrow> length (filter (\<lambda>ae. IP ae = ip) es) \<le> 1"
proof (induction es)
  case Nil
  show ?case by simp
next
  case (Cons ae rest)
  show ?case
  proof (cases "IP ae = ip")
    case True
    with Cons.prems have "ip \<notin> IP ` set rest" by auto
    then have "filter (\<lambda>ae. IP ae = ip) rest = []"
      by (force simp add: filter_empty_conv)
    with True show ?thesis by simp
  next
    case False
    with Cons show ?thesis by simp
  qed
qed

lemma unique_located:
  "uniqueIPs s \<Longrightarrow> length (filter (isFor d ip) (located s)) \<le> 1"
proof (induction s)
  case Nil
  show ?case by (simp add: located_Nil)
next
  case (Cons dae rest)
  from Cons.prems have u: "uniqueIPs rest" and b: "distinct (map IP (Entries dae))"
    and n: "Date dae \<notin> set (map Date rest)"
    by (auto simp add: uniqueIPs_def)
  show ?case
  proof (cases "Date dae = d")
    case True
    with n have "filter (isFor d ip) (located rest) = []"
      by (simp add: isFor_absent)
    with True unique_bucket [OF b, of ip] show ?thesis
      by (simp add: located_Cons isFor_bucket)
  next
    case False
    with Cons.IH [OF u] show ?thesis
      by (simp add: located_Cons isFor_bucket)
  qed
qed

lemma parseLine_unique: "uniqueIPs s \<Longrightarrow> uniqueIPs (parseLine recognise s line)"
  by (simp add: parseLine_def recordAttempt_unique split: option.splits)

lemma foldl_parseLine_unique:
  "uniqueIPs s \<Longrightarrow> uniqueIPs (foldl (parseLine recognise) s lines)"
  by (induction lines arbitrary: s) (simp_all add: parseLine_unique)

lemma parseSSHAttempts_unique: "uniqueIPs (parseSSHAttempts recognise lines)"
proof -
  have "uniqueIPs []" by (simp add: uniqueIPs_def)
  then show ?thesis
    by (simp add: parseSSHAttempts_def foldl_parseLine_unique)
qed

text \<open>
  C1. A recognised attempt line for date \<open>d\<close>, IP \<open>ip\<close> changes exactly one entry of
  a store with unique dates and IPs: afterwards the store holds exactly one entry for
  \<open>(d, ip)\<close>, which is the former one after \<open>addUser\<close> (its \<open>Count\<close> one higher) or,
  if there was none, a new entry with \<open>Count\<close> 1; every other entry is as before, in the
  same order. An unrecognised line changes nothing. Every step keeps the dates of the
  buckets and the IPs within each bucket free of duplicates, so they are at every point
  of the parse pass (after any number of lines) and after it.
\<close>

theorem parse_counts_once_and_keeps_ips_unique:
  "(recognise line = Some (d, ip, name) \<and> uniqueIPs s \<longrightarrow>
      filter (isFor d ip) (located (parseLine recognise s line)) =
        (case filter (isFor d ip) (located s) of
           [] \<Rightarrow> [(d, newEntry ip name)]
         | x # later \<Rightarrow> (d, addUser (snd x) name) # later) \<and>
      length (filter (isFor d ip) (located (parseLine recognise s line))) = 1 \<and>
      filter (\<lambda>x. \<not> isFor d ip x) (located (parseLine recognise s line)) =
        filter (\<lambda>x. \<not> isFor d ip x) (located s)) \<and>
   Count (addUser ae name) = Count ae + 1 \<and>
   Count (newEntry ip name) = 1 \<and>
   (recognise line = None \<longrightarrow> parseLine recognise s line = s) \<and>
   (uniqueIPs s \<longrightarrow> uniqueIPs (parseLine recognise s line)) \<and>
   uniqueIPs (parseSSHAttempts recognise (take n lines))"
proof (intro conjI impI)
  assume a: "recognise line = Some (d, ip, name) \<and> uniqueIPs s"
  then have p: "parseLine recognise s line = recordAttempt s d ip name"
    by (simp add: parseLine_def)
  from a have dd: "distinct (map Date s)"
    by (simp add: uniqueIPs_def)
  show eq: "filter (isFor d ip) (located (parseLine recognise s line)) =
        (case filter (isFor d ip) (located s) of
           [] \<Rightarrow> [(d, newEntry ip name)]
         | x # later \<Rightarrow> (d, addUser (snd x) name) # later)"
    by (simp only: p recordAttempt_this [OF dd])
  have "uniqueIPs (parseLine recognise s line)"
    using a by (simp add: parseLine_unique)
  then have "length (filter (isFor d ip) (located (parseLine recognise s line))) \<le> 1"
    by (rule unique_located)
  moreover have "filter (isFor d ip) (located (parseLine recognise s line)) \<noteq> []"
    by (simp add: eq split: list.splits)
  ultimately show "length (filter (isFor d ip) (located (parseLine recognise s line))) = 1"
    by (cases "filter (isFor d ip) (located (parseLine recognise s line))") simp_all
  show "filter (\<lambda>x. \<not> isFor d ip x) (located (parseLine recognise s line)) =
        filter (\<lambda>x. \<not> isFor d ip x) (located s)"
    by (simp only: p recordAttempt_others)
next
  show "Count (addUser ae name) = Count ae + 1"
    by (rule addUser_Count)
next
  show "Count (newEntry ip name) = 1"
    by (simp add: newEntry_def)
next
  assume "recognise line = None"
  then show "parseLine recognise s line = s"
    by (simp add: parseLine_def)
next
  assume "uniqueIPs s"
  then show "uniqueIPs (parseLine recognise s line)"
    by (rule parseLine_unique)
next
  show "uniqueIPs (parseSSHAttempts recognise (take n lines))"
    by (rule parseSSHAttempts_unique)
qed

lemma example_parse: "parseSSHAttempts exampleRecognise exampleLines = exampleStore"
  by (simp add: parseSSHAttempts_def exampleLines_def exampleRecognise_def parseLine_def
      recordInBucket_def exists_def newEntry_def addUser_def exampleStore_def)

lemma example_parse_prefix:
  "parseSSHAttempts exampleRecognise (take 1 exampleLines) =
     [\<lparr>Date = ''Jan 1'', Entries =
         [\<lparr>IP = ''10.0.0.1'', Location = zeroLocation, Count = 1, Users = [''admin'']\<rparr>]\<rparr>]"
  by (simp add: parseSSHAttempts_def exampleLines_def exampleRecognise_def parseLine_def
      recordInBucket_def exists_def newEntry_def addUser_def)


theorem parse_counts_once_and_keeps_ips_unique_witness:
  "filter (isFor ''Jan 1'' ''10.0.0.1'')
     (located (parseLine exampleRecognise
        [\<lparr>Date = ''Jan 1'', Entries =
           [\<lparr>IP = ''10.0.0.1'', Location = zeroLocation, Count = 1, Users = [''admin'']\<rparr>]\<rparr>]
        ''Jan 1 ... Failed password for root from 10.0.0.1 port 22 ssh2'')) =
     [(''Jan 1'', \<lparr>IP = ''10.0.0.1'', Location = zeroLocation, Count = 2,
         Users = [''admin'', ''root'']\<rparr>)] \<and>
   uniqueIPs (parseLine exampleRecognise
        [\<lparr>Date = ''Jan 1'', Entries =
           [\<lparr>IP = ''10.0.0.1'', Location = zeroLocation, Count = 1, Users = [''admin'']\<rparr>]\<rparr>]
        ''Jan 1 ... Failed password for root from 10.0.0.1 port 22 ssh2'') \<and>
   parseLine exampleRecognise exampleStore ''Jan 1 ... session opened'' = exampleStore \<and>
   uniqueIPs exampleStore"
  using parse_counts_once_and_keeps_ips_unique [where recognise = exampleRecognise
      and line = "''Jan 1 ... Failed password for root from 10.0.0.1 port 22 ssh2''"
      and d = "''Jan 1''" and ip = "''10.0.0.1''" and name = "''root''" and s =
      "[\<lparr>Date = ''Jan 1'', Entries =
           [\<lparr>IP = ''10.0.0.1'', Location = zeroLocation, Count = 1, Users = [''admin'']\<rparr>]\<rparr>]"
      and n = 4 and lines = exampleLines]
    parse_counts_once_and_keeps_ips_unique [where recognise = exampleRecognise
      and line = "''Jan 1 ... session opened''" and s = exampleStore]
    example_parse
  by (simp add: exampleRecognise_def uniqueIPs_def located_def isFor_def addUser_def
      exampleLines_def)

end
